theory Spec2Isabelle
  imports Complex_Main "HOL-Library.Sublist"
begin

section \<open>JavaScript strings\<close>

text \<open>
  A JavaScript string is modelled as a \<^typ>\<open>string\<close>, one \<^typ>\<open>char\<close> per code unit.
  The characters with a meaning for the program are the ASCII ones: letters, digits,
  the underscore, the hyphen and the six ASCII white-space characters. A \<^typ>\<open>char\<close>
  above 127 stands for a code unit without case mapping that is neither a word
  character nor white space. An optional property of a JavaScript object that is
  \<open>undefined\<close> is modelled by the empty string, the empty list or the number 0: the code
  only ever tests such a property for truthiness before it reads it, and the empty value
  is falsy too.
\<close>

definition is_digit :: "char \<Rightarrow> bool" where
  "is_digit c = (c \<in> set ''0123456789'')"

definition is_upper :: "char \<Rightarrow> bool" where
  "is_upper c = (c \<in> set ''ABCDEFGHIJKLMNOPQRSTUVWXYZ'')"

definition is_lower :: "char \<Rightarrow> bool" where
  "is_lower c = (c \<in> set ''abcdefghijklmnopqrstuvwxyz'')"

definition is_alpha :: "char \<Rightarrow> bool" where
  "is_alpha c = (is_lower c \<or> is_upper c)"

text \<open>The class \<open>\w\<close> of a regular expression without the unicode flag.\<close>

definition is_word_char :: "char \<Rightarrow> bool" where
  "is_word_char c = (is_lower c \<or> is_upper c \<or> is_digit c \<or> c = CHR ''_'')"

text \<open>The class \<open>\s\<close>: tab, line feed, vertical tab, form feed, carriage return, space.\<close>

definition is_space :: "char \<Rightarrow> bool" where
  "is_space c = (c \<in> set [CHR 0x09, CHR 0x0A, CHR 0x0B, CHR 0x0C, CHR 0x0D, CHR 0x20])"

definition is_line_terminator :: "char \<Rightarrow> bool" where
  "is_line_terminator c = (c = CHR 0x0A \<or> c = CHR 0x0D)"

text \<open>The class \<open>.\<close> (no \<open>s\<close> flag) and the class \<open>[\s\S]\<close>.\<close>

definition dot :: "char \<Rightarrow> bool" where
  "dot c = (\<not> is_line_terminator c)"

definition any_char :: "char \<Rightarrow> bool" where
  "any_char c = True"

definition toLowerChar :: "char \<Rightarrow> char" where
  "toLowerChar c =
     (case map_of (zip ''ABCDEFGHIJKLMNOPQRSTUVWXYZ'' ''abcdefghijklmnopqrstuvwxyz'') c of
        Some d \<Rightarrow> d | None \<Rightarrow> c)"

definition toUpperChar :: "char \<Rightarrow> char" where
  "toUpperChar c =
     (case map_of (zip ''abcdefghijklmnopqrstuvwxyz'' ''ABCDEFGHIJKLMNOPQRSTUVWXYZ'') c of
        Some d \<Rightarrow> d | None \<Rightarrow> c)"

definition toLowerCase :: "string \<Rightarrow> string" where
  "toLowerCase s = map toLowerChar s"

definition toUpperCase :: "string \<Rightarrow> string" where
  "toUpperCase s = map toUpperChar s"

definition trim :: "string \<Rightarrow> string" where
  "trim s = rev (dropWhile is_space (rev (dropWhile is_space s)))"

definition startsWith :: "string \<Rightarrow> string \<Rightarrow> bool" where
  "startsWith s p = prefix p s"

definition endsWith :: "string \<Rightarrow> string \<Rightarrow> bool" where
  "endsWith s p = suffix p s"

fun includes_str :: "string \<Rightarrow> string \<Rightarrow> bool" where
  "includes_str [] p = (p = [])"
| "includes_str (c # s) p = (prefix p (c # s) \<or> includes_str s p)"

text \<open>\<open>s.substring(0, n)\<close>.\<close>

definition substring0 :: "string \<Rightarrow> nat \<Rightarrow> string" where
  "substring0 s n = take n s"

text \<open>\<open>xs.join(sep)\<close>.\<close>

fun join :: "string \<Rightarrow> string list \<Rightarrow> string" where
  "join sep [] = []"
| "join sep [x] = x"
| "join sep (x # y # ys) = x @ sep @ join sep (y # ys)"

text \<open>\<open>s.split(d)\<close> for a separator \<open>d\<close> of one character.\<close>

fun split_char :: "char \<Rightarrow> string \<Rightarrow> string list" where
  "split_char d [] = [[]]"
| "split_char d (c # s) =
     (if c = d then [] # split_char d s
      else (case split_char d s of [] \<Rightarrow> [[c]] | x # xs \<Rightarrow> (c # x) # xs))"

text \<open>
  \<open>s.split(/\s+/)\<close>: the pieces between the maximal runs of white space; a run at the
  start or at the end of \<open>s\<close> leaves an empty piece there. The flag says that the
  previous character belonged to a run, the accumulator holds the piece read so far.
\<close>

fun split_ws_from :: "string \<Rightarrow> bool \<Rightarrow> string \<Rightarrow> string list" where
  "split_ws_from acc ws [] = [rev acc]"
| "split_ws_from acc ws (c # s) =
     (if is_space c then (if ws then split_ws_from acc True s
                          else rev acc # split_ws_from [] True s)
      else split_ws_from (c # acc) False s)"

definition split_ws :: "string \<Rightarrow> string list" where
  "split_ws s = split_ws_from [] False s"

text \<open>
  \<open>s.replace(pat, rep)\<close> with a string pattern: the first occurrence only. The
  replacement strings of the program contain no \<open>$\<close>.
\<close>

fun replace_str :: "string \<Rightarrow> string \<Rightarrow> string \<Rightarrow> string" where
  "replace_str pat rep [] = (if pat = [] then rep else [])"
| "replace_str pat rep (c # s) =
     (if prefix pat (c # s) then rep @ drop (length pat) (c # s)
      else c # replace_str pat rep s)"

text \<open>\<open>xs.indexOf(v)\<close>, which is \<open>-1\<close> when \<open>v\<close> does not occur.\<close>

fun indexOf :: "'a list \<Rightarrow> 'a \<Rightarrow> int" where
  "indexOf [] v = - 1"
| "indexOf (x # xs) v =
     (if x = v then 0 else (let i = indexOf xs v in if i < 0 then - 1 else i + 1))"

text \<open>
  \<open>new Set(xs)\<close>: the elements in the order of their first insertion; \<open>size\<close> is the
  length and \<open>has\<close> is membership.
\<close>

definition set_add :: "'a list \<Rightarrow> 'a \<Rightarrow> 'a list" where
  "set_add acc x = (if x \<in> set acc then acc else acc @ [x])"

definition js_set :: "'a list \<Rightarrow> 'a list" where
  "js_set xs = foldl set_add [] xs"

text \<open>The decimal rendering of a number inside a template literal.\<close>

fun string_of_nat :: "nat \<Rightarrow> string" where
  "string_of_nat n =
     (if n < 10 then [''0123456789'' ! n]
      else string_of_nat (n div 10) @ [''0123456789'' ! (n mod 10)])"

declare string_of_nat.simps [simp del]

section \<open>Regular expressions\<close>

text \<open>
  The regular expressions of the program, with the backtracking semantics of the
  language: a matcher takes the state of the match (the input already consumed, in
  reverse; the input that remains; the capture groups) and a continuation, and returns
  the first success of the continuation in the order in which the language tries the
  alternatives. Every quantifier of the program applies to a character class, so the
  two stars take one. The \<open>i\<close> and \<open>m\<close> flags are in the atoms: \<open>lit_i\<close> compares
  letters without case, \<open>BolM\<close> and \<open>EolM\<close> are \<open>^\<close> and \<open>$\<close> under the \<open>m\<close> flag.
\<close>

type_synonym captures = "(nat \<times> string) list"

type_synonym mstate = "string \<times> string \<times> captures"

datatype rx =
    Eps
  | Atom "char \<Rightarrow> bool"
  | Seq rx rx
  | Alt rx rx
  | Star "char \<Rightarrow> bool"
  | StarLazy "char \<Rightarrow> bool"
  | Cap nat rx
  | Bol | BolM | Eol | EolM
  | WordB

fun star_greedy ::
  "(char \<Rightarrow> bool) \<Rightarrow> string \<Rightarrow> string \<Rightarrow> captures \<Rightarrow> (mstate \<Rightarrow> mstate option) \<Rightarrow> mstate option"
where
  "star_greedy p b [] cs k = k (b, [], cs)"
| "star_greedy p b (c # s) cs k =
     (if p c
      then (case star_greedy p (c # b) s cs k of
              Some m \<Rightarrow> Some m
            | None \<Rightarrow> k (b, c # s, cs))
      else k (b, c # s, cs))"

fun star_lazy ::
  "(char \<Rightarrow> bool) \<Rightarrow> string \<Rightarrow> string \<Rightarrow> captures \<Rightarrow> (mstate \<Rightarrow> mstate option) \<Rightarrow> mstate option"
where
  "star_lazy p b [] cs k = k (b, [], cs)"
| "star_lazy p b (c # s) cs k =
     (case k (b, c # s, cs) of
        Some m \<Rightarrow> Some m
      | None \<Rightarrow> if p c then star_lazy p (c # b) s cs k else None)"

text \<open>Whether the character next to a position is a word character (\<open>\b\<close>).\<close>

definition word_at :: "string \<Rightarrow> bool" where
  "word_at s = (case s of [] \<Rightarrow> False | c # _ \<Rightarrow> is_word_char c)"

fun rmatch :: "rx \<Rightarrow> mstate \<Rightarrow> (mstate \<Rightarrow> mstate option) \<Rightarrow> mstate option" where
  "rmatch Eps st k = k st"
| "rmatch (Atom p) (b, s, cs) k =
     (case s of [] \<Rightarrow> None | c # s' \<Rightarrow> if p c then k (c # b, s', cs) else None)"
| "rmatch (Seq r1 r2) st k = rmatch r1 st (\<lambda>st'. rmatch r2 st' k)"
| "rmatch (Alt r1 r2) st k =
     (case rmatch r1 st k of Some m \<Rightarrow> Some m | None \<Rightarrow> rmatch r2 st k)"
| "rmatch (Star p) (b, s, cs) k = star_greedy p b s cs k"
| "rmatch (StarLazy p) (b, s, cs) k = star_lazy p b s cs k"
| "rmatch (Cap n r) (b, s, cs) k =
     rmatch r (b, s, cs)
       (\<lambda>(b', s', cs'). k (b', s', (n, rev (take (length b' - length b) b')) # cs'))"
| "rmatch Bol (b, s, cs) k = (if b = [] then k (b, s, cs) else None)"
| "rmatch BolM (b, s, cs) k =
     (if b = [] \<or> is_line_terminator (hd b) then k (b, s, cs) else None)"
| "rmatch Eol (b, s, cs) k = (if s = [] then k (b, s, cs) else None)"
| "rmatch EolM (b, s, cs) k =
     (if s = [] \<or> is_line_terminator (hd s) then k (b, s, cs) else None)"
| "rmatch WordB (b, s, cs) k =
     (if word_at b \<noteq> word_at s then k (b, s, cs) else None)"

text \<open>The match of \<open>r\<close> that starts at the current position, if there is one.\<close>

definition match_here :: "rx \<Rightarrow> string \<Rightarrow> string \<Rightarrow> mstate option" where
  "match_here r b s = rmatch r (b, s, []) Some"

text \<open>
  \<open>r.exec(s)\<close>: the leftmost match. The result is the input skipped before the match
  and the state at the end of the match.
\<close>

fun re_exec :: "rx \<Rightarrow> string \<Rightarrow> string \<Rightarrow> (string \<times> mstate) option" where
  "re_exec r b [] =
     (case match_here r b [] of None \<Rightarrow> None | Some m \<Rightarrow> Some ([], m))"
| "re_exec r b (c # s) =
     (case match_here r b (c # s) of
        Some m \<Rightarrow> Some ([], m)
      | None \<Rightarrow> (case re_exec r (c # b) s of
                  None \<Rightarrow> None
                | Some (pre, m) \<Rightarrow> Some (c # pre, m)))"

text \<open>\<open>r.test(s)\<close>.\<close>

definition re_test :: "rx \<Rightarrow> string \<Rightarrow> bool" where
  "re_test r s = (re_exec r [] s \<noteq> None)"

text \<open>The number of capture groups of a regular expression.\<close>

fun ngroups :: "rx \<Rightarrow> nat" where
  "ngroups (Seq r1 r2) = ngroups r1 + ngroups r2"
| "ngroups (Alt r1 r2) = ngroups r1 + ngroups r2"
| "ngroups (Cap n r) = Suc (ngroups r)"
| "ngroups r = 0"

text \<open>
  \<open>s.match(r)\<close> without the \<open>g\<close> flag: \<open>None\<close> is \<open>null\<close>; otherwise the array of the
  matched text and of the capture groups, a group that took no part being \<open>None\<close>.
\<close>

definition re_match :: "rx \<Rightarrow> string \<Rightarrow> string option list option" where
  "re_match r s =
     (case re_exec r [] s of
        None \<Rightarrow> None
      | Some (pre, b, s', cs) \<Rightarrow>
          Some (Some (rev (take (length b - length pre) b))
                # map (map_of cs) [1 ..< Suc (ngroups r)]))"

text \<open>
  The loop of a regular expression with the \<open>g\<close> flag over the positions of the input.
  A counter holds the number of characters of the input that still belong to the
  previous match. After an empty match the search goes on one character further.
\<close>

fun match_all_from :: "rx \<Rightarrow> nat \<Rightarrow> string \<Rightarrow> string \<Rightarrow> string list" where
  "match_all_from r n b [] =
     (if n = 0 then (case match_here r b [] of None \<Rightarrow> [] | Some m \<Rightarrow> [[]]) else [])"
| "match_all_from r (Suc n) b (c # s) = match_all_from r n (c # b) s"
| "match_all_from r 0 b (c # s) =
     (case match_here r b (c # s) of
        None \<Rightarrow> match_all_from r 0 (c # b) s
      | Some (b', s', cs) \<Rightarrow>
          take (length (c # s) - length s') (c # s)
            # match_all_from r (length (c # s) - length s' - 1) (c # b) s)"

text \<open>\<open>s.match(r)\<close> with the \<open>g\<close> flag: every match, or \<open>null\<close> when there is none.\<close>

definition re_match_all :: "rx \<Rightarrow> string \<Rightarrow> string list option" where
  "re_match_all r s = (case match_all_from r 0 [] s of [] \<Rightarrow> None | ms \<Rightarrow> Some ms)"

fun replace_all_from :: "rx \<Rightarrow> string \<Rightarrow> nat \<Rightarrow> string \<Rightarrow> string \<Rightarrow> string" where
  "replace_all_from r rep n b [] =
     (if n = 0 then (case match_here r b [] of None \<Rightarrow> [] | Some m \<Rightarrow> rep) else [])"
| "replace_all_from r rep (Suc n) b (c # s) = replace_all_from r rep n (c # b) s"
| "replace_all_from r rep 0 b (c # s) =
     (case match_here r b (c # s) of
        None \<Rightarrow> c # replace_all_from r rep 0 (c # b) s
      | Some (b', s', cs) \<Rightarrow>
          (if length s' = length (c # s)
           then rep @ c # replace_all_from r rep 0 (c # b) s
           else rep @ replace_all_from r rep (length (c # s) - length s' - 1) (c # b) s))"

text \<open>\<open>s.replace(r, rep)\<close> with the \<open>g\<close> flag, for a replacement without \<open>$\<close>.\<close>

definition re_replace_all :: "rx \<Rightarrow> string \<Rightarrow> string \<Rightarrow> string" where
  "re_replace_all r rep s = replace_all_from r rep 0 [] s"

text \<open>\<open>s.replace(r, rep)\<close> without the \<open>g\<close> flag: the leftmost match only.\<close>

definition re_replace :: "rx \<Rightarrow> string \<Rightarrow> string \<Rightarrow> string" where
  "re_replace r rep s =
     (case re_exec r [] s of
        None \<Rightarrow> s
      | Some (pre, b, s', cs) \<Rightarrow> pre @ rep @ s')"

text \<open>
  The relation between the state of a match and a later state of the same match: the
  later one has consumed a prefix of what remained.
\<close>

definition extends :: "mstate \<Rightarrow> mstate \<Rightarrow> bool" where
  "extends st st' = (\<exists>w. fst (snd st) = w @ fst (snd st') \<and> fst st' = rev w @ fst st)"

subsection \<open>Building regular expressions\<close>

definition chr :: "char \<Rightarrow> char \<Rightarrow> bool" where
  "chr c x = (x = c)"

definition chr_i :: "char \<Rightarrow> char \<Rightarrow> bool" where
  "chr_i c x = (toLowerChar x = toLowerChar c)"

definition not_chr :: "char \<Rightarrow> char \<Rightarrow> bool" where
  "not_chr c x = (x \<noteq> c)"

definition lit :: "string \<Rightarrow> rx" where
  "lit w = foldr (\<lambda>c r. Seq (Atom (chr c)) r) w Eps"

definition lit_i :: "string \<Rightarrow> rx" where
  "lit_i w = foldr (\<lambda>c r. Seq (Atom (chr_i c)) r) w Eps"

definition seqs :: "rx list \<Rightarrow> rx" where
  "seqs rs = foldr Seq rs Eps"

fun alts :: "rx list \<Rightarrow> rx" where
  "alts [] = Eps"
| "alts [r] = r"
| "alts (r # rs) = Alt r (alts rs)"

text \<open>\<open>p+\<close> and \<open>r?\<close>.\<close>

definition plus :: "(char \<Rightarrow> bool) \<Rightarrow> rx" where
  "plus p = Seq (Atom p) (Star p)"

definition opt :: "rx \<Rightarrow> rx" where
  "opt r = Alt r Eps"

section \<open>SkillManager (scripts/utils/skill-manager.js)\<close>

record source_info =
  pr :: nat
  author :: string
  date :: string
  "file" :: string

text \<open>
  The record of a skill holds every property that the program reads or writes on a
  skill object; whatever else an object carries is the extension of the record.
\<close>

record skill =
  name :: string
  title :: string
  description :: string
  instructions :: string
  "keywords" :: "string list"
  path :: string
  domain :: string
  category :: string
  skillName :: string
  antiPattern :: string
  bestPractice :: string
  badExample :: string
  goodExample :: string
  sources :: "source_info list"
  source :: source_info

text \<open>
  The object literal \<open>{title, description, keywords}\<close> that \<open>generateSkill\<close> hands to
  \<open>findSimilarSkills\<close>: every other property is absent.
\<close>

definition candidate :: "string \<Rightarrow> string \<Rightarrow> string list \<Rightarrow> skill" where
  "candidate t d ks =
     \<lparr>name = [], title = t, description = d, instructions = [], keywords = ks,
      path = [], domain = [], category = [], skillName = [], antiPattern = [],
      bestPractice = [], badExample = [], goodExample = [], sources = [],
      source = \<lparr>pr = 0, author = [], date = [], file = []\<rparr>\<rparr>"

record 'a similar =
  skill :: 'a
  similarity :: rat

text \<open>
  The score is the quotient of two set sizes. It is modelled by the exact quotient,
  and the threshold \<open>0.8\<close> by the fraction: the rounded quotient of two integers below
  \<open>2^50\<close> is at least the rounded \<open>0.8\<close> exactly when the quotient is at least \<open>4/5\<close>.
\<close>

definition similarityThreshold :: rat where
  "similarityThreshold = 8 / 10"

text \<open>
  The text of a skill that is compared, and its set of significant words: the two
  first statements of \<open>calculateSimilarity\<close>, which the function runs on each skill.
\<close>

definition skill_text :: "'a skill_scheme \<Rightarrow> string" where
  "skill_text skill1 =
     toLowerCase
       (title skill1 @ '' '' @ description skill1 @ '' '' @ join '' '' (keywords skill1))"

definition skill_words :: "'a skill_scheme \<Rightarrow> string list" where
  "skill_words skill1 = js_set (filter (\<lambda>w. 3 < length w) (split_ws (skill_text skill1)))"

definition calculateSimilarity :: "'a skill_scheme \<Rightarrow> 'b skill_scheme \<Rightarrow> rat" where
  "calculateSimilarity skill1 skill2 =
     (let words1 = skill_words skill1;
          words2 = skill_words skill2;
          intersection = js_set (filter (\<lambda>x. x \<in> set words2) words1);
          union_set = js_set (words1 @ words2)
      in if length union_set = 0 then 0
         else of_nat (length intersection) / of_nat (length union_set))"

text \<open>
  \<open>findSimilarSkills\<close>, with the skills read from the directory tree
  (\<open>getAllSkills\<close>) as a parameter. The sort of the language is stable.
\<close>

definition findSimilarSkills ::
  "'a skill_scheme \<Rightarrow> 'b skill_scheme list \<Rightarrow> 'b skill_scheme similar list"
where
  "findSimilarSkills newSkill existingSkills =
     (let similar =
        foldl (\<lambda>similar existing.
                 let similarity = calculateSimilarity newSkill existing
                 in if similarityThreshold \<le> similarity
                    then similar @ [\<lparr>skill = existing, similarity = similarity\<rparr>]
                    else similar)
          [] existingSkills
      in sort_key (\<lambda>a. - similarity a) similar)"

definition mergeSkills :: "'a skill_scheme \<Rightarrow> 'b skill_scheme \<Rightarrow> 'a skill_scheme" where
  "mergeSkills existingSkill newSkill =
     (let mergedInstructions =
            instructions existingSkill @ ''\<newline>\<newline>---\<newline>\<newline>'' @ instructions newSkill;
          a = keywords existingSkill @ keywords newSkill;
          mergedKeywords =
            map fst (filter (\<lambda>(v, i). indexOf a v = int i) (zip a [0 ..< length a]));
          mergedDescription =
            (if description newSkill \<noteq> [] then description newSkill
             else description existingSkill)
      in existingSkill
           \<lparr>description := mergedDescription,
            instructions := mergedInstructions,
            keywords := mergedKeywords,
            sources := sources existingSkill @
              [\<lparr>pr = pr (source newSkill),
                author = author (source newSkill),
                date = date (source newSkill),
                file = file (source newSkill)\<rparr>]\<rparr>)"

definition verbMappings :: "(string \<times> string) list" where
  "verbMappings =
     [(''avoid'', ''avoiding''),
      (''prefer'', ''preferring''),
      (''use'', ''using''),
      (''implement'', ''implementing''),
      (''handle'', ''handling''),
      (''manage'', ''managing''),
      (''process'', ''processing''),
      (''validate'', ''validating''),
      (''check'', ''checking''),
      (''test'', ''testing''),
      (''create'', ''creating''),
      (''update'', ''updating''),
      (''delete'', ''deleting''),
      (''remove'', ''removing''),
      (''add'', ''adding''),
      (''fix'', ''fixing''),
      (''optimize'', ''optimizing''),
      (''refactor'', ''refactoring''),
      (''extract'', ''extracting''),
      (''configure'', ''configuring''),
      (''setup'', ''setting-up''),
      (''initialize'', ''initializing'')]"

text \<open>The loop of \<open>convertToGerundForm\<close> over the entries of the table.\<close>

fun gerund_loop :: "(string \<times> string) list \<Rightarrow> string \<Rightarrow> string" where
  "gerund_loop [] name' = name'"
| "gerund_loop ((verb, gerund) # entries) name' =
     (if startsWith name' (verb @ ''-'')
      then replace_str (verb @ ''-'') (gerund @ ''-'') name'
      else gerund_loop entries name')"

definition convertToGerundForm :: "string \<Rightarrow> string" where
  "convertToGerundForm name' = gerund_loop verbMappings name'"

definition normalizeSkillName :: "string \<Rightarrow> string" where
  "normalizeSkillName name' =
     (let normalized =
            re_replace_all (Alt (Seq Bol (lit ''-'')) (Seq (lit ''-'') Eol)) []
              (re_replace_all (plus (chr CHR ''-'')) ''-''
                (re_replace_all (plus is_space) ''-''
                  (re_replace_all
                     (Atom (\<lambda>c. \<not> (is_word_char c \<or> is_space c \<or> c = CHR ''-''))) []
                     (toLowerCase name'))));
          normalized = convertToGerundForm normalized
      in if 64 < length normalized
         then re_replace (Seq (lit ''-'') Eol) [] (substring0 normalized 64)
         else normalized)"

definition getCategoryFolder :: "string \<Rightarrow> string" where
  "getCategoryFolder cat =
     (if cat = ''anti-pattern'' then ''anti-patterns''
      else if cat = ''best-practice'' then ''best-practices''
      else ''general'')"

section \<open>SkillValidator (scripts/utils/skill-validator.js)\<close>

datatype severity = Error | Warning | Info

record issue =
  severity :: severity
  code :: string
  message :: string
  "fix" :: string

text \<open>The result of \<open>parseSkillContent\<close>; its properties \<open>name\<close> and \<open>description\<close>
  are the fields \<open>parsed_name\<close> and \<open>parsed_description\<close>.\<close>

record parsed =
  frontmatter :: string
  body :: string
  parsed_name :: string
  parsed_description :: string
  lines :: nat

record validation =
  valid :: bool
  issues :: "issue list"
  summary :: string

definition maxSkillLines :: nat where
  "maxSkillLines = 500"

definition maxNameLength :: nat where
  "maxNameLength = 64"

definition maxDescriptionLength :: nat where
  "maxDescriptionLength = 1024"

definition reservedWords :: "string list" where
  "reservedWords = [''anthropic'', ''claude'']"

text \<open>
  The element \<open>k\<close> of a match array. The groups that the program reads take part in
  every match of their expression.
\<close>

definition group :: "string option list \<Rightarrow> nat \<Rightarrow> string" where
  "group m k = (case drop k m of Some g # _ \<Rightarrow> g | _ \<Rightarrow> [])"

text \<open>\<open>/^---\n([\s\S]*?)\n---/\<close>\<close>

definition frontmatter_re :: rx where
  "frontmatter_re =
     seqs [Bol, lit ''---\<newline>'', Cap 1 (StarLazy any_char), lit ''\<newline>---'']"

text \<open>\<open>/^---\n[\s\S]*?\n---\n*/\<close>\<close>

definition frontmatter_block_re :: rx where
  "frontmatter_block_re =
     seqs [Bol, lit ''---\<newline>'', StarLazy any_char, lit ''\<newline>---'', Star (chr CHR 0x0A)]"

text \<open>\<open>/^name:\s*(.+)$/m\<close> and \<open>/^description:\s*(.+)$/m\<close>\<close>

definition name_re :: rx where
  "name_re = seqs [BolM, lit ''name:'', Star is_space, Cap 1 (plus dot), EolM]"

definition description_re :: rx where
  "description_re = seqs [BolM, lit ''description:'', Star is_space, Cap 1 (plus dot), EolM]"

definition parseSkillContent :: "string \<Rightarrow> parsed" where
  "parseSkillContent content =
     (let frontmatterMatch = re_match frontmatter_re content;
          frontmatter' = (case frontmatterMatch of None \<Rightarrow> [] | Some m \<Rightarrow> group m 1);
          body' = re_replace frontmatter_block_re [] content;
          nameMatch = re_match name_re frontmatter';
          descMatch = re_match description_re frontmatter'
      in \<lparr>frontmatter = frontmatter',
          body = body',
          parsed_name = (case nameMatch of None \<Rightarrow> [] | Some m \<Rightarrow> trim (group m 1)),
          parsed_description = (case descMatch of None \<Rightarrow> [] | Some m \<Rightarrow> trim (group m 1)),
          lines = length (split_char CHR 0x0A content)\<rparr>)"

definition isGerundForm :: "string \<Rightarrow> bool" where
  "isGerundForm name' =
     (let parts = split_char CHR ''-'' name';
          firstWord = (case parts of [] \<Rightarrow> [] | w # _ \<Rightarrow> w)
      in endsWith firstWord ''ing''
         \<or> list_ex (\<lambda>g. startsWith name' g) [''setting-up'', ''working-with''])"

definition isFirstOrSecondPerson :: "string \<Rightarrow> bool" where
  "isFirstOrSecondPerson text' =
     (let patterns =
        [seqs [WordB, lit_i ''I'', plus is_space,
               Cap 1 (alts (map lit_i [''can'', ''will'', ''help'', ''am'', ''have''])), WordB],
         seqs [WordB, lit_i ''you'', plus is_space,
               Cap 1 (alts (map lit_i [''can'', ''will'', ''should'', ''could'', ''may'',
                                       ''might'', ''are'', ''have''])), WordB],
         seqs [WordB, lit_i ''we'', plus is_space,
               Cap 1 (alts (map lit_i [''can'', ''will'', ''should'', ''are'', ''have''])), WordB],
         seqs [WordB, lit_i ''help'', opt (Atom (chr_i CHR ''s'')), lit_i '' you'', WordB]]
      in list_ex (\<lambda>p. re_test p text') patterns)"

text \<open>\<open>hasWhenToUse\<close> of the validator, with its five patterns.\<close>

definition validator_hasWhenToUse :: "string \<Rightarrow> bool" where
  "validator_hasWhenToUse text' =
     (let patterns =
        [seqs [WordB, lit_i ''use when'', WordB],
         seqs [WordB, lit_i ''use for'', WordB],
         seqs [WordB, lit_i ''when '',
               Cap 1 (alts (map lit_i [''working'', ''dealing'', ''processing'', ''handling''])),
               WordB],
         seqs [WordB, lit_i ''for '',
               Cap 1 (alts (map lit_i [''working'', ''dealing'', ''processing'', ''handling''])),
               WordB],
         seqs [WordB, lit_i ''if '',
               Cap 1 (alts (map lit_i [''the user'', ''you need'', ''working''])), WordB]]
      in list_ex (\<lambda>p. re_test p text') patterns)"

definition validateFrontmatter :: "string \<Rightarrow> string \<Rightarrow> string \<Rightarrow> issue list" where
  \<open>validateFrontmatter frontmatter' name' description' =
     (if name' = []
      then [\<lparr>severity = Error, code = ''MISSING_NAME'',
             message = ''Skill must have a name field in frontmatter'',
             fix = ''Add "name: your-skill-name" to the YAML frontmatter''\<rparr>]
      else
        (if maxNameLength < length name'
         then [\<lparr>severity = Error, code = ''NAME_TOO_LONG'',
                message = ''Name exceeds '' @ string_of_nat maxNameLength @ '' characters (''
                          @ string_of_nat (length name') @ '')'',
                fix = ''Shorten the name to '' @ string_of_nat maxNameLength
                      @ '' characters or less''\<rparr>]
         else [])
        @ (if \<not> re_test
                 (seqs [Bol, plus (\<lambda>c. is_lower c \<or> is_digit c \<or> c = CHR ''-''), Eol]) name'
           then [\<lparr>severity = Error, code = ''INVALID_NAME_FORMAT'',
                  message = ''Name must contain only lowercase letters, numbers, and hyphens'',
                  fix = ''Use kebab-case with lowercase letters: "my-skill-name"''\<rparr>]
           else [])
        @ (if list_ex (\<lambda>word. includes_str name' word) reservedWords
           then [\<lparr>severity = Error, code = ''RESERVED_WORD'',
                  message = ''Name contains reserved word: ''
                            @ (case find (\<lambda>w. includes_str name' w) reservedWords of
                                 Some w \<Rightarrow> w | None \<Rightarrow> ''undefined''),
                  fix = ''Remove "anthropic" or "claude" from the skill name''\<rparr>]
           else [])
        @ (if \<not> isGerundForm name'
           then [\<lparr>severity = Warning, code = ''NON_GERUND_NAME'',
                  message = ''Skill name should use gerund form (verb + -ing)'',
                  fix = ''Rename to gerund form: e.g., "avoiding-x" instead of "avoid-x"''\<rparr>]
           else []))
     @
     (if description' = []
      then [\<lparr>severity = Error, code = ''MISSING_DESCRIPTION'',
             message = ''Skill must have a description field in frontmatter'',
             fix = ''Add "description: Your skill description" to the YAML frontmatter''\<rparr>]
      else
        (if maxDescriptionLength < length description'
         then [\<lparr>severity = Error, code = ''DESCRIPTION_TOO_LONG'',
                message = ''Description exceeds '' @ string_of_nat maxDescriptionLength
                          @ '' characters ('' @ string_of_nat (length description') @ '')'',
                fix = ''Shorten the description to '' @ string_of_nat maxDescriptionLength
                      @ '' characters or less''\<rparr>]
         else [])
        @ (if re_test (seqs [lit ''<'', plus (not_chr CHR ''>''), lit ''>'']) description'
           then [\<lparr>severity = Error, code = ''XML_IN_DESCRIPTION'',
                  message = ''Description cannot contain XML tags'',
                  fix = ''Remove any XML/HTML tags from the description''\<rparr>]
           else [])
        @ (if isFirstOrSecondPerson description'
           then [\<lparr>severity = Warning, code = ''NON_THIRD_PERSON'',
                  message = ''Description should be written in third person'',
                  fix = ''Rewrite to third person: "Processes files..." not "I process files..." or "You can process..."''\<rparr>]
           else [])
        @ (if \<not> validator_hasWhenToUse description'
           then [\<lparr>severity = Warning, code = ''MISSING_WHEN_TO_USE'',
                  message = ''Description should include when to use the skill'',
                  fix = ''Add context: "...Use when working with X" or "Use for Y scenarios"''\<rparr>]
           else []))\<close>

text \<open>The five time patterns, each \<open>/<word> \w+ \d{4}/i\<close> but the last, \<open>/as of \d{4}/i\<close>.\<close>

definition year_re :: rx where
  "year_re = seqs [Atom is_digit, Atom is_digit, Atom is_digit, Atom is_digit]"

definition timePatterns :: "rx list" where
  "timePatterns =
     [seqs [lit_i ''before '', plus is_word_char, lit '' '', year_re],
      seqs [lit_i ''after '', plus is_word_char, lit '' '', year_re],
      seqs [lit_i ''starting '', plus is_word_char, lit '' '', year_re],
      seqs [lit_i ''until '', plus is_word_char, lit '' '', year_re],
      seqs [lit_i ''as of '', year_re]]"

text \<open>\<open>/[a-zA-Z]:\\|\\[a-zA-Z]+\\/\<close>\<close>

definition windows_path_re :: rx where
  "windows_path_re =
     Alt (seqs [Atom is_alpha, lit [CHR '':'', CHR 0x5C]])
         (seqs [lit [CHR 0x5C], plus is_alpha, lit [CHR 0x5C]])"

definition validateContent :: "string \<Rightarrow> parsed \<Rightarrow> issue list" where
  \<open>validateContent content parsed' =
     (if maxSkillLines < lines parsed'
      then [\<lparr>severity = Warning, code = ''TOO_MANY_LINES'',
             message = ''Skill exceeds recommended '' @ string_of_nat maxSkillLines
                       @ '' lines ('' @ string_of_nat (lines parsed') @ '')'',
             fix = ''Split content into separate reference files using progressive disclosure''\<rparr>]
      else [])
     @ (if list_ex (\<lambda>pattern. re_test pattern content) timePatterns
        then [\<lparr>severity = Warning, code = ''TIME_SENSITIVE_INFO'',
               message = ''Content contains time-sensitive information'',
               fix = ''Move time-sensitive info to an "old patterns" section or remove it''\<rparr>]
        else [])
     @ (if re_test windows_path_re content
        then [\<lparr>severity = Warning, code = ''WINDOWS_PATHS'',
               message = ''Content contains Windows-style paths'',
               fix = ''Use forward slashes for cross-platform compatibility''\<rparr>]
        else [])\<close>

text \<open>\<open>/See \[.*?\]\(.*?\)/g\<close> and \<open>/\(([^)]+)\)/\<close>\<close>

definition reference_re :: rx where
  "reference_re = seqs [lit ''See ['', StarLazy dot, lit '']('', StarLazy dot, lit '')'']"

definition ref_path_re :: rx where
  "ref_path_re = seqs [lit ''('', Cap 1 (plus (not_chr CHR '')'')), lit '')'']"

definition validateStructure :: "parsed \<Rightarrow> issue list" where
  \<open>validateStructure parsed' =
     (let body' = body parsed';
          referenceMatches = (case re_match_all reference_re body' of None \<Rightarrow> [] | Some ms \<Rightarrow> ms);
          nestedRefs =
            filter (\<lambda>ref. case re_match ref_path_re ref of
                             None \<Rightarrow> False
                           | Some pathMatch \<Rightarrow>
                               includes_str (group pathMatch 1) ''/''
                               \<and> 2 < length (split_char CHR ''/'' (group pathMatch 1)))
              referenceMatches
      in (if \<not> includes_str body' ''## ''
          then [\<lparr>severity = Warning, code = ''NO_SECTIONS'',
                 message = ''Skill should have structured sections'',
                 fix = ''Add sections like "## Instructions", "## Examples"''\<rparr>]
          else [])
         @ (if 0 < length nestedRefs
            then [\<lparr>severity = Warning, code = ''DEEPLY_NESTED_REFS'',
                   message = ''References should be one level deep from SKILL.md'',
                   fix = ''Keep all reference files directly accessible from SKILL.md''\<rparr>]
            else []))\<close>

text \<open>
  The table of verbose patterns: the expression, whether it has the \<open>g\<close> flag, the
  \<open>count\<close> (0 when the entry has none) and the message.
\<close>

definition verbosePatterns :: "(rx \<times> bool \<times> nat \<times> string) list" where
  "verbosePatterns =
     [(seqs [lit_i ''there are many '',
             Cap 1 (alts (map lit_i [''libraries'', ''options'', ''ways'']))],
       False, 0, ''Avoid listing multiple options - provide a default''),
      (seqs [lit_i ''first'', opt (lit '',''), lit_i '' you'',
             Cap 1 (alts [lit_i ([CHR 0x27] @ ''ll''), lit_i '' will'']), lit_i '' need to''],
       False, 0, ''Remove step-by-step explanations of obvious actions''),
      (seqs [lit_i ''this '', Cap 1 (alts (map lit_i [''is'', ''means'', ''allows'']))],
       False, 5, ''Excessive explanatory phrases detected''),
      (seqs [WordB,
             Cap 1 (alts (map lit_i [''basically'', ''essentially'', ''simply'', ''just''])),
             WordB],
       True, 3, ''Remove filler words'')]"

definition commonConcepts :: "string list" where
  "commonConcepts = [''pdf'', ''json'', ''api'', ''http'', ''database'', ''function'', ''class'']"

text \<open>\<open>new RegExp(`${concept}[^.]*is a[^.]*that[^.]*\\.`, 'i')\<close>\<close>

definition explainPattern :: "string \<Rightarrow> rx" where
  "explainPattern concept =
     seqs [lit_i concept, Star (not_chr CHR ''.''), lit_i ''is a'', Star (not_chr CHR ''.''),
           lit_i ''that'', Star (not_chr CHR ''.''), lit ''.'']"

definition validateConciseness :: "string \<Rightarrow> parsed \<Rightarrow> issue list" where
  \<open>validateConciseness content parsed' =
     concat (map (\<lambda>(pattern, global, count, message').
                    let matches = (if global then map_option length (re_match_all pattern content)
                                   else map_option length (re_match pattern content));
                        threshold = (if count = 0 then 1 else count)
                    in (case matches of
                          None \<Rightarrow> []
                        | Some n \<Rightarrow>
                            if threshold \<le> n
                            then [\<lparr>severity = Info, code = ''VERBOSE_CONTENT'',
                                   message = message',
                                   fix = ''Assume Claude already knows common patterns - be more concise''\<rparr>]
                            else []))
               verbosePatterns)
     @ (case find (\<lambda>concept. re_test (explainPattern concept) content) commonConcepts of
          None \<Rightarrow> []
        | Some concept \<Rightarrow>
            [\<lparr>severity = Info, code = ''UNNECESSARY_EXPLANATION'',
              message = ''Unnecessary explanation of "'' @ concept
                        @ ''" - Claude knows what it is'',
              fix = ''Remove explanations of well-known concepts''\<rparr>])\<close>

definition generateSummary :: "issue list \<Rightarrow> string" where
  "generateSummary issues' =
     (let errors = length (filter (\<lambda>i. severity i = Error) issues');
          warnings = length (filter (\<lambda>i. severity i = Warning) issues');
          infos = length (filter (\<lambda>i. severity i = Info) issues')
      in if errors = 0 \<and> warnings = 0 \<and> infos = 0 then ''Skill passes all validations''
         else ''Found '' @ join '', ''
                ((if 0 < errors then [string_of_nat errors @ '' error(s)''] else [])
                 @ (if 0 < warnings then [string_of_nat warnings @ '' warning(s)''] else [])
                 @ (if 0 < infos then [string_of_nat infos @ '' suggestion(s)''] else [])))"

text \<open>
  \<open>validateSkill\<close>, on the result of reading the file: \<open>Inl\<close> holds the message of the
  error that \<open>readFile\<close> raised, \<open>Inr\<close> the content of the file.
\<close>

definition validateSkill :: "string + string \<Rightarrow> validation" where
  "validateSkill file_read =
     (let issues' =
        (case file_read of
           Inr content \<Rightarrow>
             (let parsed' = parseSkillContent content
              in validateFrontmatter (frontmatter parsed') (parsed_name parsed')
                   (parsed_description parsed')
                 @ validateContent content parsed'
                 @ validateStructure parsed'
                 @ validateConciseness content parsed')
         | Inl error_message \<Rightarrow>
             [\<lparr>severity = Error, code = ''FILE_ERROR'',
               message = ''Cannot read skill file: '' @ error_message,
               fix = ''Ensure the skill file exists and is readable''\<rparr>])
      in \<lparr>valid = (length (filter (\<lambda>i. severity i = Error) issues') = 0),
          issues = issues',
          summary = generateSummary issues'\<rparr>)"

section \<open>SkillGenerator (scripts/generate-skill.js)\<close>

definition makeConcise :: "string \<Rightarrow> string" where
  "makeConcise text' =
     (if text' = [] then []
      else trim
        (re_replace_all (plus is_space) '' ''
          (re_replace_all
             (seqs [lit_i ''this '', Cap 1 (alts (map lit_i [''is'', ''means'', ''allows''])),
                    plus is_space]) []
            (re_replace_all
               (seqs [lit_i ''there are many '',
                      Cap 1 (alts (map lit_i [''options'', ''ways'', ''approaches''])),
                      lit '' '', Cap 2 (alts (map lit_i [''to'', ''for''])), Star is_space]) []
              (re_replace_all
                 (seqs [lit_i ''first'', opt (lit '',''), Star is_space, lit_i ''you'',
                        Cap 1 (alts [lit_i ([CHR 0x27] @ ''ll''), lit_i '' will'']),
                        lit_i '' need to'', Star is_space]) []
                (re_replace_all
                   (seqs [WordB,
                          Cap 1 (alts (map lit_i [''basically'', ''essentially'', ''simply'',
                                                  ''just''])),
                          WordB, Star is_space]) []
                   text'))))))"

text \<open>\<open>hasWhenToUse\<close> of the generator, with its three patterns.\<close>

definition hasWhenToUse :: "string \<Rightarrow> bool" where
  "hasWhenToUse text' =
     (let patterns =
        [seqs [WordB, lit_i ''use when'', WordB],
         seqs [WordB, lit_i ''use for'', WordB],
         seqs [WordB, lit_i ''when '',
               Cap 1 (alts (map lit_i [''working'', ''dealing'', ''processing'', ''handling''])),
               WordB]]
      in list_ex (\<lambda>p. re_test p text') patterns)"

definition addWhenToUse :: "string \<Rightarrow> string \<Rightarrow> string \<Rightarrow> string" where
  "addWhenToUse description' category' domain' =
     (let domainContext =
            (if domain' \<noteq> ''general'' then '' in '' @ toUpperCase domain' @ '' codebase''
             else [])
      in if category' = ''anti-pattern''
         then description' @ '' Use when reviewing code'' @ domainContext
              @ '' to avoid this pattern.''
         else if category' = ''best-practice''
         then description' @ '' Use when implementing similar functionality'' @ domainContext
              @ ''.''
         else description')"

text \<open>
  The name and the description that \<open>buildSkillContent\<close> and
  \<open>applyProgressiveDisclosure\<close> write into the frontmatter; both functions start with
  these same statements.
\<close>

definition frontmatterName :: "'a skill_scheme \<Rightarrow> string" where
  "frontmatterName skillData =
     normalizeSkillName
       (if skillName skillData \<noteq> [] then skillName skillData else title skillData)"

definition enhancedDescription :: "'a skill_scheme \<Rightarrow> string" where
  "enhancedDescription skillData =
     (let domain' = (if domain skillData \<noteq> [] then domain skillData else ''general'');
          enhanced = (if description skillData \<noteq> [] then description skillData
                      else title skillData);
          enhanced = (if \<not> hasWhenToUse enhanced
                      then addWhenToUse enhanced (category skillData) domain'
                      else enhanced)
      in if 1024 < length enhanced then substring0 enhanced 1021 @ ''...'' else enhanced)"

text \<open>The line of one additional source in the metadata comment.\<close>

definition sourceLine :: "source_info \<Rightarrow> string" where
  "sourceLine source' =
     (if pr source' \<noteq> 0
      then ''  - PR #'' @ string_of_nat (pr source') @ '' by @''
           @ (if author source' \<noteq> [] then author source' else ''unknown'') @ ''\<newline>''
      else [])"

text \<open>The four lines of the source of a skill, common to both metadata comments.\<close>

definition sourceFields :: "source_info \<Rightarrow> string" where
  "sourceFields sourceInfo =
     (if pr sourceInfo \<noteq> 0 then ''PR: #'' @ string_of_nat (pr sourceInfo) @ ''\<newline>'' else [])
     @ (if author sourceInfo \<noteq> [] then ''Author: @'' @ author sourceInfo @ ''\<newline>'' else [])
     @ (if date sourceInfo \<noteq> [] then ''Date: '' @ date sourceInfo @ ''\<newline>'' else [])
     @ (if file sourceInfo \<noteq> [] then ''File: '' @ file sourceInfo @ ''\<newline>'' else [])"

definition buildSkillContent :: "'a skill_scheme \<Rightarrow> source_info \<Rightarrow> string" where
  "buildSkillContent skillData sourceInfo =
     (let skillName' = frontmatterName skillData;
          enhanced = enhancedDescription skillData;
          yaml = ''---\<newline>name: '' @ skillName' @ ''\<newline>description: '' @ enhanced @ ''\<newline>---'';
          markdown = ''# '' @ title skillData @ ''\<newline>\<newline>'';
          markdown = markdown @ ''## Instructions\<newline>\<newline>'';
          markdown = markdown @ makeConcise (instructions skillData) @ ''\<newline>\<newline>'';
          markdown = markdown @
            (if category skillData = ''anti-pattern'' \<and> antiPattern skillData \<noteq> []
             then ''## Anti-Pattern\<newline>\<newline>'' @ makeConcise (antiPattern skillData) @ ''\<newline>\<newline>''
             else if category skillData = ''best-practice'' \<and> bestPractice skillData \<noteq> []
             then ''## Best Practice\<newline>\<newline>'' @ makeConcise (bestPractice skillData) @ ''\<newline>\<newline>''
             else []);
          markdown = markdown @
            (if badExample skillData \<noteq> [] \<or> goodExample skillData \<noteq> []
             then ''## Examples\<newline>\<newline>''
                  @ (if badExample skillData \<noteq> []
                     then ''### Bad\<newline>\<newline>'' @ ''```\<newline>'' @ trim (badExample skillData) @ ''\<newline>```\<newline>\<newline>''
                     else [])
                  @ (if goodExample skillData \<noteq> []
                     then ''### Good\<newline>\<newline>'' @ ''```\<newline>'' @ trim (goodExample skillData) @ ''\<newline>```\<newline>\<newline>''
                     else [])
             else []);
          metadata = ''\<newline><!--\<newline>'';
          metadata = metadata @ ''Source Metadata (not visible to Claude):\<newline>'';
          metadata = metadata @ sourceFields sourceInfo;
          metadata = metadata @
            (if 1 < length (sources skillData)
             then ''Additional sources:\<newline>'' @ concat (map sourceLine (drop 1 (sources skillData)))
             else []);
          metadata = metadata @ ''-->\<newline>''
      in yaml @ ''\<newline>\<newline>'' @ markdown @ metadata)"

definition buildExamplesFile :: "'a skill_scheme \<Rightarrow> string" where
  "buildExamplesFile skillData =
     ''# Examples\<newline>\<newline>''
     @ (if badExample skillData \<noteq> []
        then ''## Bad Example\<newline>\<newline>```\<newline>'' @ trim (badExample skillData) @ ''\<newline>```\<newline>\<newline>''
        else [])
     @ (if goodExample skillData \<noteq> []
        then ''## Good Example\<newline>\<newline>```\<newline>'' @ trim (goodExample skillData) @ ''\<newline>```\<newline>\<newline>''
        else [])"

definition buildDetailsFile :: "'a skill_scheme \<Rightarrow> string" where
  "buildDetailsFile skillData =
     (let sectionName = (if category skillData = ''anti-pattern'' then ''Anti-Pattern''
                         else ''Best Practice'');
          content = (if category skillData = ''anti-pattern'' then antiPattern skillData
                     else bestPractice skillData)
      in ''# '' @ sectionName @ '' Details\<newline>\<newline>'' @ content @ ''\<newline>'')"

definition buildSourceMetadata :: "source_info \<Rightarrow> source_info list \<Rightarrow> string" where
  "buildSourceMetadata sourceInfo additionalSources =
     (let metadata = ''\<newline><!--\<newline>'';
          metadata = metadata @ ''Source Metadata:\<newline>'';
          metadata = metadata @ sourceFields sourceInfo;
          metadata = metadata @
            (if 0 < length additionalSources
             then ''Additional sources:\<newline>'' @ concat (map sourceLine additionalSources)
             else []);
          metadata = metadata @ ''-->\<newline>''
      in metadata)"

text \<open>
  A reference file that \<open>applyProgressiveDisclosure\<close> writes: the directory of the
  skill, the name of the file in it and the content written. The path pushed on
  \<open>referenceFiles\<close> is the directory joined with the name.
\<close>

record reference_file =
  ref_dir :: string
  ref_name :: string
  ref_content :: string

record disclosure =
  mainContent :: string
  referenceFiles :: "reference_file list"

definition applyProgressiveDisclosure ::
  "'a skill_scheme \<Rightarrow> source_info \<Rightarrow> string \<Rightarrow> disclosure"
where
  "applyProgressiveDisclosure skillData sourceInfo skillDir =
     (let skillName' = frontmatterName skillData;
          enhanced = enhancedDescription skillData;
          mainContent' =
            ''---\<newline>name: '' @ skillName' @ ''\<newline>description: '' @ enhanced @ ''\<newline>---\<newline>\<newline># ''
            @ title skillData @ ''\<newline>\<newline>## Overview\<newline>\<newline>'' @ makeConcise (instructions skillData)
            @ ''\<newline>\<newline>'';
          hasExamples = (badExample skillData \<noteq> [] \<or> goodExample skillData \<noteq> []);
          referenceFiles' =
            (if hasExamples
             then [\<lparr>ref_dir = skillDir, ref_name = ''EXAMPLES.md'',
                    ref_content = buildExamplesFile skillData\<rparr>]
             else []);
          mainContent' = mainContent' @
            (if hasExamples
             then ''## Examples\<newline>\<newline>See [EXAMPLES.md](EXAMPLES.md) for code examples.\<newline>\<newline>''
             else []);
          categoryContent = (if category skillData = ''anti-pattern'' then antiPattern skillData
                             else bestPractice skillData);
          referenceFiles' = referenceFiles' @
            (if categoryContent \<noteq> [] \<and> 500 < length categoryContent
             then [\<lparr>ref_dir = skillDir, ref_name = ''DETAILS.md'',
                    ref_content = buildDetailsFile skillData\<rparr>]
             else []);
          mainContent' = mainContent' @
            (if categoryContent \<noteq> [] \<and> 500 < length categoryContent
             then ''## ''
                  @ (if category skillData = ''anti-pattern'' then ''Anti-Pattern Details''
                     else ''Best Practice Details'')
                  @ ''\<newline>\<newline>See [DETAILS.md](DETAILS.md) for detailed guidance.\<newline>\<newline>''
             else if categoryContent \<noteq> []
             then ''## ''
                  @ (if category skillData = ''anti-pattern'' then ''Anti-Pattern''
                     else ''Best Practice'')
                  @ ''\<newline>\<newline>'' @ makeConcise categoryContent @ ''\<newline>\<newline>''
             else []);
          mainContent' = mainContent' @ buildSourceMetadata sourceInfo (sources skillData)
      in \<lparr>mainContent = mainContent', referenceFiles = referenceFiles'\<rparr>)"

text \<open>
  The content that \<open>generateSkill\<close> writes for the final data of a skill (the
  statements from ``Generate skill file content'' to the write of the file), with the
  reference files written on the way.
\<close>

definition generateSkill_content ::
  "'a skill_scheme \<Rightarrow> source_info \<Rightarrow> string \<Rightarrow> disclosure"
where
  "generateSkill_content finalSkillData sourceInfo skillDir =
     (let content = buildSkillContent finalSkillData sourceInfo;
          lineCount = length (split_char CHR 0x0A content)
      in if maxSkillLines < lineCount
         then applyProgressiveDisclosure finalSkillData sourceInfo skillDir
         else \<lparr>mainContent = content, referenceFiles = []\<rparr>)"

section \<open>Properties of the similarity matcher\<close>

lemma set_foldl_set_add: "set (foldl set_add acc xs) = set acc \<union> set xs"
  by (induction xs arbitrary: acc) (auto simp: set_add_def)

lemma distinct_foldl_set_add: "distinct acc \<Longrightarrow> distinct (foldl set_add acc xs)"
  by (induction xs arbitrary: acc) (auto simp: set_add_def)

lemma set_js_set: "set (js_set xs) = set xs"
  by (simp add: js_set_def set_foldl_set_add)

lemma distinct_js_set: "distinct (js_set xs)"
  by (simp add: js_set_def distinct_foldl_set_add)

lemma length_js_set: "length (js_set xs) = card (set xs)"
  using distinct_card [OF distinct_js_set, of xs] by (simp add: set_js_set)

text \<open>The score is the Jaccard index of the two sets of significant words.\<close>

lemma calculateSimilarity_card:
  "calculateSimilarity a b =
     (if set (skill_words a) \<union> set (skill_words b) = {} then 0
      else of_nat (card (set (skill_words a) \<inter> set (skill_words b)))
           / of_nat (card (set (skill_words a) \<union> set (skill_words b))))"
proof -
  have inter: "set (filter (\<lambda>x. x \<in> set (skill_words b)) (skill_words a))
      = set (skill_words a) \<inter> set (skill_words b)"
    by auto
  show ?thesis
    unfolding calculateSimilarity_def Let_def length_js_set inter
    by (simp add: Int_commute)
qed

lemma calculateSimilarity_sym: "calculateSimilarity a b = calculateSimilarity b a"
  by (simp add: calculateSimilarity_card Int_commute Un_commute)

lemma calculateSimilarity_range:
  "0 \<le> calculateSimilarity a b \<and> calculateSimilarity a b \<le> 1"
proof -
  let ?A = "set (skill_words a)" and ?B = "set (skill_words b)"
  have "card (?A \<inter> ?B) \<le> card (?A \<union> ?B)"
    by (rule card_mono) auto
  then have "(of_nat (card (?A \<inter> ?B)) :: rat) \<le> of_nat (card (?A \<union> ?B))"
    by simp
  then show ?thesis
    by (auto simp: calculateSimilarity_card divide_le_eq_1 card_gt_0_iff)
qed

lemma calculateSimilarity_no_words:
  "skill_words s = [] \<Longrightarrow> calculateSimilarity s e = 0"
  by (simp add: calculateSimilarity_card)

text \<open>The loop of \<open>findSimilarSkills\<close> is a filter followed by a map.\<close>

lemma similar_loop:
  "foldl (\<lambda>similar existing.
            let similarity = calculateSimilarity c existing
            in if similarityThreshold \<le> similarity
               then similar @ [\<lparr>skill = existing, similarity = similarity\<rparr>]
               else similar) acc xs
   = acc @ map (\<lambda>e. \<lparr>skill = e, similarity = calculateSimilarity c e\<rparr>)
             (filter (\<lambda>e. similarityThreshold \<le> calculateSimilarity c e) xs)"
  by (induction xs arbitrary: acc) (simp_all add: Let_def)

lemma findSimilarSkills_alt:
  "findSimilarSkills c xs =
     sort_key (\<lambda>a. - similarity a)
       (map (\<lambda>e. \<lparr>skill = e, similarity = calculateSimilarity c e\<rparr>)
          (filter (\<lambda>e. similarityThreshold \<le> calculateSimilarity c e) xs))"
  by (simp add: findSimilarSkills_def similar_loop)

lemma sorted_neg_rev:
  fixes f :: "'a \<Rightarrow> rat"
  shows "sorted (map (\<lambda>a. - f a) xs) \<Longrightarrow> sorted (rev (map f xs))"
  by (induction xs) (auto simp: sorted_append)

lemma skill_words_empty:
  assumes "\<forall>w \<in> set (split_ws (skill_text s)). length w \<le> 3"
  shows "skill_words s = []"
proof -
  have "filter (\<lambda>w. 3 < length w) (split_ws (skill_text s)) = []"
    using assms by (auto simp: filter_empty_conv)
  then show ?thesis by (simp add: skill_words_def js_set_def)
qed

text \<open>
  C5. Every pair that \<open>findSimilarSkills\<close> returns holds a skill of the corpus with
  its score against the candidate, the score is at least the threshold \<open>0.8\<close>, the
  scores descend along the result, and an empty corpus gives the empty result.
\<close>

theorem findSimilarSkills_threshold_sorted:
  "(\<forall>p \<in> set (findSimilarSkills c corpus).
      skill p \<in> set corpus \<and> similarity p = calculateSimilarity c (skill p)
      \<and> similarityThreshold \<le> similarity p)
   \<and> sorted (rev (map similarity (findSimilarSkills c corpus)))
   \<and> findSimilarSkills c [] = []
   \<and> similarityThreshold = 8 / 10"
proof -
  have "sorted (map (\<lambda>a. - similarity a) (findSimilarSkills c corpus))"
    unfolding findSimilarSkills_alt by (rule sorted_sort_key)
  then have "sorted (rev (map similarity (findSimilarSkills c corpus)))"
    by (rule sorted_neg_rev)
  then show ?thesis
    by (auto simp: findSimilarSkills_alt similarityThreshold_def)
qed

theorem findSimilarSkills_threshold_sorted_witness:
  "findSimilarSkills (candidate ''avoid direct state mutation'' [] [])
     [candidate ''unrelated words here'' [] [],
      candidate ''Avoid direct mutation'' ''state'' []]
     = [\<lparr>skill = candidate ''Avoid direct mutation'' ''state'' [], similarity = 1\<rparr>]
   \<and> similarityThreshold
       \<le> similarity \<lparr>skill = candidate ''Avoid direct mutation'' ''state'' [], similarity = 1\<rparr>"
proof -
  let ?c = "candidate ''avoid direct state mutation'' [] []"
  let ?corpus = "[candidate ''unrelated words here'' [] [],
      candidate ''Avoid direct mutation'' ''state'' []]"
  let ?p = "\<lparr>skill = candidate ''Avoid direct mutation'' ''state'' [], similarity = 1\<rparr>"
  have e: "findSimilarSkills ?c ?corpus = [?p]"
    by code_simp
  have "\<forall>p \<in> set (findSimilarSkills ?c ?corpus). similarityThreshold \<le> similarity p"
    using findSimilarSkills_threshold_sorted [of ?c ?corpus] by blast
  then have "similarityThreshold \<le> similarity ?p"
    unfolding e by simp
  with e show ?thesis by simp
qed

text \<open>
  C6. The score of two skills is symmetric and lies between 0 and 1, and it is 0 when
  the union of the two sets of significant words is empty.
\<close>

theorem calculateSimilarity_symmetric_bounded:
  "calculateSimilarity a b = calculateSimilarity b a
   \<and> 0 \<le> calculateSimilarity a b \<and> calculateSimilarity a b \<le> 1
   \<and> (set (skill_words a) \<union> set (skill_words b) = {} \<longrightarrow> calculateSimilarity a b = 0)"
  using calculateSimilarity_sym [of a b] calculateSimilarity_range [of a b]
  by (simp add: calculateSimilarity_card)

theorem calculateSimilarity_symmetric_bounded_witness:
  "set (skill_words (candidate ''Fix it'' ''a bug'' [''js''])) \<union>
   set (skill_words (candidate ''Use map'' ''not for'' [])) = {}
   \<and> calculateSimilarity (candidate ''Fix it'' ''a bug'' [''js''])
        (candidate ''Use map'' ''not for'' []) = 0"
proof -
  have h: "set (skill_words (candidate ''Fix it'' ''a bug'' [''js''])) \<union>
      set (skill_words (candidate ''Use map'' ''not for'' [])) = {}"
    by code_simp
  show ?thesis
    using h calculateSimilarity_symmetric_bounded
      [of "candidate ''Fix it'' ''a bug'' [''js'']" "candidate ''Use map'' ''not for'' []"]
    by blast
qed

text \<open>
  C9. A skill whose title, description and keywords hold no word of more than three
  characters has no significant word: its score against itself is 0, not 1, and
  \<open>findSimilarSkills\<close> reports nothing for it, whatever the corpus holds.
\<close>

theorem short_words_never_similar:
  assumes "\<forall>w \<in> set (split_ws (skill_text s)). length w \<le> 3"
  shows "calculateSimilarity s s = 0 \<and> findSimilarSkills s corpus = []"
proof -
  have w: "skill_words s = []" using assms by (rule skill_words_empty)
  have "filter (\<lambda>e. similarityThreshold \<le> calculateSimilarity s e) corpus = []"
    by (simp add: calculateSimilarity_no_words [OF w] similarityThreshold_def)
  then show ?thesis
    by (simp add: findSimilarSkills_alt calculateSimilarity_no_words [OF w])
qed

theorem short_words_never_similar_witness:
  "list_all (\<lambda>w. length w \<le> 3) (split_ws (skill_text (candidate ''Fix it'' ''a bug'' [''js''])))
   \<and> calculateSimilarity (candidate ''Fix it'' ''a bug'' [''js''])
        (candidate ''Fix it'' ''a bug'' [''js'']) = 0
   \<and> findSimilarSkills (candidate ''Fix it'' ''a bug'' [''js''])
        [candidate ''Fix it'' ''a bug'' [''js'']] = []"
proof -
  let ?s = "candidate ''Fix it'' ''a bug'' [''js'']"
  have l: "list_all (\<lambda>w. length w \<le> 3) (split_ws (skill_text ?s))"
    by code_simp
  then have h: "\<forall>w \<in> set (split_ws (skill_text ?s)). length w \<le> 3"
    by (simp add: list_all_iff)
  show ?thesis
    using l short_words_never_similar [OF h, of "[?s]"] by simp
qed

section \<open>Properties of the merge\<close>

text \<open>
  C7. The sources of a merged skill are the sources of the existing skill, unchanged
  and in their order, followed by one entry made of the four properties of the source
  of the incoming skill: one entry more than before.
\<close>

theorem mergeSkills_sources:
  "length (sources (mergeSkills A B)) = length (sources A) + 1
   \<and> take (length (sources A)) (sources (mergeSkills A B)) = sources A
   \<and> sources (mergeSkills A B) = sources A @
        [\<lparr>pr = pr (source B), author = author (source B),
          date = date (source B), file = file (source B)\<rparr>]"
  by (simp add: mergeSkills_def Let_def)

text \<open>
  C10. The merge changes the description, the instructions, the keywords and the
  sources of the existing skill and nothing else: every other property of the
  existing skill, also one outside the record, is in the result unchanged.
\<close>

theorem mergeSkills_frame:
  "name (mergeSkills A B) = name A \<and> title (mergeSkills A B) = title A
   \<and> path (mergeSkills A B) = path A \<and> domain (mergeSkills A B) = domain A
   \<and> category (mergeSkills A B) = category A \<and> skillName (mergeSkills A B) = skillName A
   \<and> antiPattern (mergeSkills A B) = antiPattern A
   \<and> bestPractice (mergeSkills A B) = bestPractice A
   \<and> badExample (mergeSkills A B) = badExample A
   \<and> goodExample (mergeSkills A B) = goodExample A
   \<and> source (mergeSkills A B) = source A
   \<and> skill.more (mergeSkills A B) = skill.more A
   \<and> mergeSkills A B =
        A\<lparr>description := description (mergeSkills A B),
          instructions := instructions (mergeSkills A B),
          keywords := keywords (mergeSkills A B),
          sources := sources (mergeSkills A B)\<rparr>"
  by (simp add: mergeSkills_def Let_def)

section \<open>Properties of the normalizer\<close>

lemma replace_str_prefix:
  "prefix pat s \<Longrightarrow> replace_str pat rep s = rep @ drop (length pat) s"
  by (cases s) auto

lemma gerund_loop_unmatched:
  "\<forall>(verb, gerund) \<in> set tbl. \<not> startsWith n (verb @ ''-'') \<Longrightarrow> gerund_loop tbl n = n"
  by (induction tbl) auto

lemma takeWhile_until: "x \<notin> set v \<Longrightarrow> takeWhile (\<lambda>c. c \<noteq> x) (v @ x # r) = v"
  by (induction v) auto

lemma hyphen_prefix_unique:
  assumes "prefix (v1 @ ''-'') n" "prefix (v2 @ ''-'') n"
    and "CHR ''-'' \<notin> set v1" "CHR ''-'' \<notin> set v2"
  shows "v1 = v2"
proof -
  obtain r1 where n1: "n = v1 @ ''-'' @ r1"
    using assms(1) by (auto simp: prefix_def)
  obtain r2 where n2: "n = v2 @ ''-'' @ r2"
    using assms(2) by (auto simp: prefix_def)
  note n = n1 n2
  have "takeWhile (\<lambda>c. c \<noteq> CHR ''-'') n = v1"
    using assms(3) by (simp add: n(1) takeWhile_until)
  moreover have "takeWhile (\<lambda>c. c \<noteq> CHR ''-'') n = v2"
    using assms(4) by (simp add: n(2) takeWhile_until)
  ultimately show ?thesis by simp
qed

lemma gerund_loop_matched:
  assumes "(verb, gerund) \<in> set tbl" "startsWith n (verb @ ''-'')"
    and "\<forall>(v, g) \<in> set tbl. CHR ''-'' \<notin> set v" "distinct (map fst tbl)"
  shows "gerund_loop tbl n = gerund @ ''-'' @ drop (length verb + 1) n"
  using assms
proof (induction tbl)
  case Nil
  then show ?case by simp
next
  case (Cons e tbl)
  obtain v g where e: "e = (v, g)" by (cases e)
  show ?case
  proof (cases "startsWith n (v @ ''-'')")
    case True
    have v: "v = verb"
      using True Cons.prems e by (auto simp: startsWith_def intro: hyphen_prefix_unique)
    then have "g = gerund"
      using Cons.prems e by (auto simp: rev_image_eqI)
    then show ?thesis
      using True e v by (simp add: startsWith_def replace_str_prefix)
  next
    case False
    then have "(verb, gerund) \<in> set tbl"
      using Cons.prems e by auto
    then show ?thesis
      using False e Cons by simp
  qed
qed

lemma verbMappings_wf:
  "(\<forall>(v, g) \<in> set verbMappings. CHR ''-'' \<notin> set v) \<and> distinct (map fst verbMappings)"
  by (simp add: verbMappings_def)

text \<open>
  C8. The table is applied to the leading segment only and once: a name that starts
  with an entry's verb followed by a hyphen gets that verb replaced by its gerund, the
  rest of the name unchanged; a name that starts with no verb of the table followed by
  a hyphen is returned as it is; so \<open>avoidance-x\<close> is not rewritten, and
  \<open>Avoid Direct State\<close> normalizes to \<open>avoiding-direct-state\<close>.
\<close>

theorem convertToGerundForm_leading_verb:
  "((verb, gerund) \<in> set verbMappings \<and> startsWith n (verb @ ''-'')
      \<longrightarrow> convertToGerundForm n = gerund @ ''-'' @ drop (length verb + 1) n)
   \<and> ((\<forall>(verb, gerund) \<in> set verbMappings. \<not> startsWith n (verb @ ''-''))
      \<longrightarrow> convertToGerundForm n = n)
   \<and> convertToGerundForm ''avoidance-x'' = ''avoidance-x''
   \<and> normalizeSkillName ''Avoid Direct State'' = ''avoiding-direct-state''"
proof -
  have a: "normalizeSkillName ''Avoid Direct State'' = ''avoiding-direct-state''"
    by code_simp
  have b: "convertToGerundForm ''avoidance-x'' = ''avoidance-x''"
    by code_simp
  show ?thesis
    using a b verbMappings_wf gerund_loop_matched [of verb gerund verbMappings n]
      gerund_loop_unmatched [of verbMappings n]
    unfolding convertToGerundForm_def by blast
qed

theorem convertToGerundForm_leading_verb_witness:
  "(''fix'', ''fixing'') \<in> set verbMappings \<and> startsWith ''fix-fix-it'' (''fix'' @ ''-'')
   \<and> convertToGerundForm ''fix-fix-it'' = ''fixing-fix-it''
   \<and> list_all (\<lambda>(verb, gerund). \<not> startsWith ''re-fix-it'' (verb @ ''-'')) verbMappings
   \<and> convertToGerundForm ''re-fix-it'' = ''re-fix-it''"
proof -
  have h1: "(''fix'', ''fixing'') \<in> set verbMappings \<and> startsWith ''fix-fix-it'' (''fix'' @ ''-'')"
    by code_simp
  have l: "list_all (\<lambda>(verb, gerund). \<not> startsWith ''re-fix-it'' (verb @ ''-'')) verbMappings"
    by code_simp
  then have h2: "\<forall>(verb, gerund) \<in> set verbMappings. \<not> startsWith ''re-fix-it'' (verb @ ''-'')"
    by (simp add: list_all_iff)
  show ?thesis
    using h1 l h2 convertToGerundForm_leading_verb [of "''fix''" "''fixing''" "''fix-fix-it''"]
      convertToGerundForm_leading_verb [of "''fix''" "''fixing''" "''re-fix-it''"]
    by simp
qed

text \<open>
  C1. The normalizer keeps the underscore, a word character of the language: the
  title \<open>Avoid snake_case names\<close> normalizes to \<open>avoiding-snake_case-names\<close>, which does
  not match \<open>^[a-z0-9-]*$\<close> and which the validator of the repository rejects with
  the error on the format of the name.
\<close>

theorem normalizeSkillName_underscore:
  "normalizeSkillName ''Avoid snake_case names'' = ''avoiding-snake_case-names''
   \<and> \<not> re_test (seqs [Bol, Star (\<lambda>c. is_lower c \<or> is_digit c \<or> c = CHR ''-''), Eol])
         (normalizeSkillName ''Avoid snake_case names'')
   \<and> map code (filter (\<lambda>i. severity i = Error)
         (validateFrontmatter [] (normalizeSkillName ''Avoid snake_case names'')
            ''Use when naming.''))
       = [''INVALID_NAME_FORMAT'']"
  by code_simp

section \<open>Properties of the validator\<close>

lemma validateContent_no_error:
  "filter (\<lambda>i. severity i = Error) (validateContent content p) = []"
  by (simp add: validateContent_def)

lemma validateStructure_no_error:
  "filter (\<lambda>i. severity i = Error) (validateStructure p) = []"
  by (simp add: validateStructure_def Let_def)

lemma validateConciseness_info:
  "i \<in> set (validateConciseness content p) \<Longrightarrow> severity i = Info"
  by (auto simp: validateConciseness_def Let_def split: option.splits if_splits)

lemma validateConciseness_no_error:
  "filter (\<lambda>i. severity i = Error) (validateConciseness content p) = []"
  by (auto simp: filter_empty_conv dest: validateConciseness_info)

lemma parse_without_frontmatter:
  assumes "re_match frontmatter_re content = None"
  shows "frontmatter (parseSkillContent content) = []"
    and "parsed_name (parseSkillContent content) = []"
    and "parsed_description (parseSkillContent content) = []"
proof -
  have n: "re_match name_re [] = None" by code_simp
  have d: "re_match description_re [] = None" by code_simp
  show "frontmatter (parseSkillContent content) = []"
    using assms by (simp add: parseSkillContent_def Let_def)
  show "parsed_name (parseSkillContent content) = []"
    using assms n by (simp add: parseSkillContent_def Let_def)
  show "parsed_description (parseSkillContent content) = []"
    using assms d by (simp add: parseSkillContent_def Let_def)
qed

text \<open>
  C4. For a content in which the frontmatter expression finds no block, the parser
  returns an empty name and an empty description, and the validation of the content
  has exactly two issues of severity error, the missing name and the missing
  description in this order; the result is not valid. No issue reports a failure.
\<close>

theorem validateSkill_missing_frontmatter:
  assumes "re_match frontmatter_re content = None"
  shows "parsed_name (parseSkillContent content) = []
    \<and> parsed_description (parseSkillContent content) = []
    \<and> map code (filter (\<lambda>i. severity i = Error) (issues (validateSkill (Inr content))))
        = [''MISSING_NAME'', ''MISSING_DESCRIPTION'']
    \<and> \<not> valid (validateSkill (Inr content))"
proof -
  note p = parse_without_frontmatter [OF assms]
  have f: "map code (filter (\<lambda>i. severity i = Error)
        (validateFrontmatter [] [] [])) = [''MISSING_NAME'', ''MISSING_DESCRIPTION'']"
    by (simp add: validateFrontmatter_def)
  have e: "filter (\<lambda>i. severity i = Error) (issues (validateSkill (Inr content)))
      = filter (\<lambda>i. severity i = Error) (validateFrontmatter [] [] [])"
    by (simp add: validateSkill_def Let_def p validateContent_no_error
        validateStructure_no_error validateConciseness_no_error)
  have v: "valid (validateSkill (Inr content))
      = (length (filter (\<lambda>i. severity i = Error) (issues (validateSkill (Inr content)))) = 0)"
    by (simp add: validateSkill_def Let_def)
  have "\<not> valid (validateSkill (Inr content))"
    unfolding v e by (simp add: validateFrontmatter_def)
  then show ?thesis
    using p f e by simp
qed

theorem validateSkill_missing_frontmatter_witness:
  "re_match frontmatter_re ''# Title\<newline>\<newline>## Instructions\<newline>'' = None
   \<and> map code (filter (\<lambda>i. severity i = Error)
        (issues (validateSkill (Inr ''# Title\<newline>\<newline>## Instructions\<newline>''))))
      = [''MISSING_NAME'', ''MISSING_DESCRIPTION'']
   \<and> \<not> valid (validateSkill (Inr ''# Title\<newline>\<newline>## Instructions\<newline>''))"
proof -
  have h: "re_match frontmatter_re ''# Title\<newline>\<newline>## Instructions\<newline>'' = None"
    by code_simp
  show ?thesis
    using h validateSkill_missing_frontmatter [OF h] by simp
qed


section \<open>Properties of the regular expressions\<close>

subsection \<open>The matcher\<close>

lemma rmatch_lit:
  "rmatch (lit w) (b, s, cs) k =
     (if prefix w s then k (rev w @ b, drop (length w) s, cs) else None)"
proof (induction w arbitrary: b s)
  case Nil
  then show ?case by (simp add: lit_def)
next
  case (Cons c w)
  have l: "lit (c # w) = Seq (Atom (chr c)) (lit w)"
    by (simp add: lit_def)
  show ?case
    by (cases s) (auto simp: l Cons chr_def)
qed

lemma star_greedy_max:
  "\<forall>c \<in> set pre. p c \<Longrightarrow> s = [] \<or> \<not> p (hd s) \<Longrightarrow> k (rev pre @ b, s, cs) = Some m
   \<Longrightarrow> star_greedy p b (pre @ s) cs k = Some m"
proof (induction pre arbitrary: b)
  case Nil
  then show ?case by (cases s) auto
next
  case (Cons x pre)
  then show ?case by simp
qed

lemma star_lazy_here:
  "k (b, s, cs) = Some m \<Longrightarrow> star_lazy p b s cs k = Some m"
  by (cases s) auto

lemma re_exec_here:
  "match_here r b s = Some m \<Longrightarrow> re_exec r b s = Some ([], m)"
  by (cases s) auto

text \<open>A match consumes a prefix of the remaining input and nothing else.\<close>

lemma extends_refl: "extends st st"
  by (simp add: extends_def)

lemma extends_trans: "extends a b \<Longrightarrow> extends b c \<Longrightarrow> extends a c"
  by (auto simp: extends_def)

lemma star_greedy_extends:
  "star_greedy p b s cs k = Some m \<Longrightarrow> \<exists>st'. k st' = Some m \<and> extends (b, s, cs) st'"
proof (induction s arbitrary: b)
  case Nil
  then show ?case by (auto intro: extends_refl)
next
  case (Cons c s)
  show ?case
  proof (cases "p c \<and> star_greedy p (c # b) s cs k \<noteq> None")
    case True
    then have "star_greedy p (c # b) s cs k = Some m"
      using Cons.prems by auto
    from Cons.IH [OF this] obtain st' where
      "k st' = Some m" "extends (c # b, s, cs) st'" by blast
    moreover have "extends (b, c # s, cs) (c # b, s, cs)"
      by (simp add: extends_def)
    ultimately show ?thesis by (blast intro: extends_trans)
  next
    case False
    then have "k (b, c # s, cs) = Some m"
      using Cons.prems by (auto split: if_splits option.splits)
    then show ?thesis by (blast intro: extends_refl)
  qed
qed

lemma star_lazy_extends:
  "star_lazy p b s cs k = Some m \<Longrightarrow> \<exists>st'. k st' = Some m \<and> extends (b, s, cs) st'"
proof (induction s arbitrary: b)
  case Nil
  then show ?case by (auto intro: extends_refl)
next
  case (Cons c s)
  show ?case
  proof (cases "k (b, c # s, cs)")
    case (Some m')
    then show ?thesis using Cons.prems by (auto intro: extends_refl)
  next
    case None
    then have "star_lazy p (c # b) s cs k = Some m"
      using Cons.prems by (auto split: if_splits)
    from Cons.IH [OF this] obtain st' where
      "k st' = Some m" "extends (c # b, s, cs) st'" by blast
    moreover have "extends (b, c # s, cs) (c # b, s, cs)"
      by (simp add: extends_def)
    ultimately show ?thesis by (blast intro: extends_trans)
  qed
qed

lemma extends_step: "extends (b, c # s, cs) (c # b, s, cs')"
  by (simp add: extends_def)

lemma extends_same: "extends (b, s, cs) (b, s, cs')"
  by (simp add: extends_def)

lemma extends_caps: "extends st (b', s', cs') \<Longrightarrow> extends st (b', s', cs'')"
  by (simp add: extends_def)

lemma rmatch_extends:
  "rmatch r st k = Some m \<Longrightarrow> \<exists>st'. k st' = Some m \<and> extends st st'"
proof (induction r arbitrary: st k)
  case Eps
  then have "k st = Some m" by simp
  then show ?case using extends_refl by blast
next
  case (Atom p)
  obtain b s cs where st: "st = (b, s, cs)" by (cases st)
  from Atom obtain c s' where "s = c # s'" "k (c # b, s', cs) = Some m"
    by (cases s) (auto simp: st split: if_splits)
  then show ?case
    unfolding st using extends_step by blast
next
  case (Seq r1 r2)
  from Seq.prems Seq.IH(1) [of st "\<lambda>st'. rmatch r2 st' k"] obtain st1 where
    1: "rmatch r2 st1 k = Some m" "extends st st1" by auto
  from Seq.IH(2) [OF 1(1)] obtain st2 where "k st2 = Some m" "extends st1 st2" by blast
  with 1(2) show ?case by (blast intro: extends_trans)
next
  case (Alt r1 r2)
  then show ?case by (auto split: option.splits)
next
  case (Star p)
  obtain b s cs where st: "st = (b, s, cs)" by (cases st)
  from Star have "star_greedy p b s cs k = Some m" by (simp add: st)
  then show ?case unfolding st by (rule star_greedy_extends)
next
  case (StarLazy p)
  obtain b s cs where st: "st = (b, s, cs)" by (cases st)
  from StarLazy have "star_lazy p b s cs k = Some m" by (simp add: st)
  then show ?case unfolding st by (rule star_lazy_extends)
next
  case (Cap n r)
  obtain b s cs where st: "st = (b, s, cs)" by (cases st)
  define k' where
    "k' = (\<lambda>(b', s', cs'). k (b', s', (n, rev (take (length b' - length b) b')) # cs'))"
  from Cap.prems have "rmatch r st k' = Some m"
    by (simp add: st k'_def)
  from Cap.IH [OF this] obtain st' where 0: "k' st' = Some m" "extends st st'"
    by blast
  then have 1: "(case st' of (b', s', cs') \<Rightarrow>
      k (b', s', (n, rev (take (length b' - length b) b')) # cs')) = Some m" "extends st st'"
    by (simp_all add: k'_def)
  obtain b' s' cs' where st': "st' = (b', s', cs')" by (cases st')
  have "extends st (b', s', (n, rev (take (length b' - length b) b')) # cs')"
    using 1(2) unfolding st' by (rule extends_caps)
  moreover have "k (b', s', (n, rev (take (length b' - length b) b')) # cs') = Some m"
    using 1(1) by (simp add: st')
  ultimately show ?case by blast
next
  case Bol
  then have "k st = Some m" by (cases st) (auto split: if_splits)
  then show ?case using extends_refl by blast
next
  case BolM
  then have "k st = Some m" by (cases st) (auto split: if_splits)
  then show ?case using extends_refl by blast
next
  case Eol
  then have "k st = Some m" by (cases st) (auto split: if_splits)
  then show ?case using extends_refl by blast
next
  case EolM
  then have "k st = Some m" by (cases st) (auto split: if_splits)
  then show ?case using extends_refl by blast
next
  case WordB
  then have "k st = Some m" by (cases st) (auto split: if_splits)
  then show ?case using extends_refl by blast
qed

lemma match_here_consumes:
  "match_here r b s = Some (b', s', cs) \<Longrightarrow> \<exists>w. s = w @ s' \<and> b' = rev w @ b"
  using rmatch_extends [of r "(b, s, [])" Some "(b', s', cs)"]
  by (auto simp: match_here_def extends_def)

lemma re_exec_consumes:
  "re_exec r b s = Some (pre, b', s', cs) \<Longrightarrow> \<exists>w. s = pre @ w @ s' \<and> b' = rev w @ rev pre @ b"
proof (induction s arbitrary: b pre)
  case Nil
  then show ?case
    by (auto split: option.splits dest: match_here_consumes)
next
  case (Cons c s)
  show ?case
  proof (cases "match_here r b (c # s)")
    case (Some m)
    then show ?thesis
      using Cons.prems by (auto dest: match_here_consumes)
  next
    case None
    then obtain q where q: "re_exec r (c # b) s = Some (q, b', s', cs)" "pre = c # q"
      using Cons.prems by (auto split: option.splits)
    from Cons.IH [OF q(1)] show ?thesis
      by (auto simp: q(2))
  qed
qed

subsection \<open>Replacement\<close>

lemma replace_all_from_subset:
  "set (replace_all_from r rep n b s) \<subseteq> set rep \<union> set s"
proof (induction s arbitrary: n b)
  case Nil
  have "replace_all_from r rep n b [] = [] \<or> replace_all_from r rep n b [] = rep"
    by (cases "match_here r b []") auto
  then show ?case by (auto simp del: replace_all_from.simps)
next
  case (Cons c s)
  show ?case
  proof (cases n)
    case 0
    show ?thesis
    proof (cases "match_here r b (c # s)")
      case None
      with 0 Cons [of 0 "c # b"] show ?thesis by auto
    next
      case (Some st)
      obtain b' s' cs where st: "st = (b', s', cs)" by (cases st)
      from 0 Some st Cons [of 0 "c # b"] Cons [of "length (c # s) - length s' - 1" "c # b"]
      show ?thesis by (cases "length s' = length (c # s)") auto
    qed
  next
    case (Suc n')
    with Cons [of n' "c # b"] show ?thesis by auto
  qed
qed

lemma re_replace_all_subset: "set (re_replace_all r rep s) \<subseteq> set rep \<union> set s"
  by (simp add: re_replace_all_def replace_all_from_subset)

lemma replace_all_from_chars:
  assumes m1: "\<And>b c s. p c \<Longrightarrow> match_here r b (c # s) \<noteq> None"
    and m2: "\<And>b c s b' s' cs. match_here r b (c # s) = Some (b', s', cs) \<Longrightarrow> length s' \<le> length s"
  shows "x \<in> set (replace_all_from r rep n b s) \<Longrightarrow> x \<in> set rep \<or> \<not> p x"
proof (induction s arbitrary: n b)
  case Nil
  have "replace_all_from r rep n b [] = [] \<or> replace_all_from r rep n b [] = rep"
    by (cases "match_here r b []") auto
  with Nil show ?case by (auto simp del: replace_all_from.simps)
next
  case (Cons c s)
  show ?case
  proof (cases n)
    case (Suc n')
    with Cons show ?thesis by simp
  next
    case 0
    show ?thesis
    proof (cases "match_here r b (c # s)")
      case None
      with m1 [of c b s] have "\<not> p c" by auto
      with Cons 0 None show ?thesis by auto
    next
      case (Some st)
      obtain b' s' cs where st: "st = (b', s', cs)" by (cases st)
      from m2 [of b c s b' s' cs] Some st have "length s' \<le> length s" by auto
      with Cons 0 Some st show ?thesis by auto
    qed
  qed
qed

lemma star_greedy_Some:
  "star_greedy p b s cs Some = Some (rev (takeWhile p s) @ b, dropWhile p s, cs)"
  by (induction s arbitrary: b) auto

lemma match_here_Atom:
  "match_here (Atom p) b (c # s) = (if p c then Some (c # b, s, []) else None)"
  by (simp add: match_here_def)

lemma match_here_plus:
  "match_here (plus p) b (c # s) =
     (if p c then Some (rev (takeWhile p s) @ c # b, dropWhile p s, []) else None)"
  by (simp add: match_here_def plus_def star_greedy_Some)

lemma re_replace_all_Atom_chars:
  "x \<in> set (re_replace_all (Atom p) [] s) \<Longrightarrow> \<not> p x"
proof -
  have 1: "\<And>b c s. p c \<Longrightarrow> match_here (Atom p) b (c # s) \<noteq> None"
    by (simp add: match_here_Atom)
  have 2: "\<And>b c s b' s' cs. match_here (Atom p) b (c # s) = Some (b', s', cs)
      \<Longrightarrow> length s' \<le> length s"
    by (auto simp: match_here_Atom split: if_splits)
  from replace_all_from_chars [of p "Atom p" x "[]" 0 "[]" s, OF 1 2]
  show "x \<in> set (re_replace_all (Atom p) [] s) \<Longrightarrow> \<not> p x"
    by (simp add: re_replace_all_def)
qed

lemma re_replace_all_plus_chars:
  "x \<in> set (re_replace_all (plus p) rep s) \<Longrightarrow> x \<in> set rep \<or> \<not> p x"
proof -
  have 1: "\<And>b c s. p c \<Longrightarrow> match_here (plus p) b (c # s) \<noteq> None"
    by (simp add: match_here_plus)
  have 2: "\<And>b c s b' s' cs. match_here (plus p) b (c # s) = Some (b', s', cs)
      \<Longrightarrow> length s' \<le> length s"
    by (auto simp: match_here_plus length_dropWhile_le split: if_splits)
  from replace_all_from_chars [of p "plus p" x rep 0 "[]" s, OF 1 2]
  show "x \<in> set (re_replace_all (plus p) rep s) \<Longrightarrow> x \<in> set rep \<or> \<not> p x"
    by (simp add: re_replace_all_def)
qed

lemma re_replace_subset: "set (re_replace r rep s) \<subseteq> set rep \<union> set s"
  by (auto simp: re_replace_def split: option.splits dest!: re_exec_consumes)

lemma length_re_replace_empty: "length (re_replace r [] s) \<le> length s"
  by (auto simp: re_replace_def split: option.splits dest!: re_exec_consumes)

lemma replace_str_subset: "set (replace_str pat rep s) \<subseteq> set rep \<union> set s"
  by (induction s) (auto dest: in_set_dropD)

subsection \<open>The characters of a normalized name\<close>

lemma toLowerChar_not_upper: "\<not> is_upper (toLowerChar c)"
  by (simp add: toLowerChar_def is_upper_def)

lemma toLowerCase_not_upper: "c \<in> set (toLowerCase s) \<Longrightarrow> \<not> is_upper c"
  by (auto simp: toLowerCase_def toLowerChar_not_upper)

lemma gerund_loop_chars:
  assumes "\<forall>(v, g) \<in> set tbl. \<forall>c \<in> set g. P c" "P CHR ''-''" "\<forall>c \<in> set n. P c"
  shows "\<forall>c \<in> set (gerund_loop tbl n). P c"
  using assms
proof (induction tbl)
  case Nil
  then show ?case by simp
next
  case (Cons e tbl)
  obtain v g where e: "e = (v, g)" by (cases e)
  show ?case
  proof (cases "startsWith n (v @ ''-'')")
    case True
    have "set (replace_str (v @ ''-'') (g @ ''-'') n) \<subseteq> set (g @ ''-'') \<union> set n"
      by (rule replace_str_subset)
    with True Cons.prems e show ?thesis by auto
  next
    case False
    with Cons e show ?thesis by auto
  qed
qed

lemma verbMappings_gerund_chars:
  "\<forall>(v, g) \<in> set verbMappings. \<forall>c \<in> set g. is_lower c \<or> is_digit c \<or> c = CHR ''_'' \<or> c = CHR ''-''"
  by (simp add: verbMappings_def is_lower_def)

lemma normalizeSkillName_chars:
  "c \<in> set (normalizeSkillName n)
   \<Longrightarrow> is_lower c \<or> is_digit c \<or> c = CHR ''_'' \<or> c = CHR ''-''"
proof -
  let ?P = "\<lambda>c. is_lower c \<or> is_digit c \<or> c = CHR ''_'' \<or> c = CHR ''-''"
  let ?keep = "\<lambda>c. is_word_char c \<or> is_space c \<or> c = CHR ''-''"
  let ?s0 = "toLowerCase n"
  let ?s1 = "re_replace_all (Atom (\<lambda>c. \<not> ?keep c)) [] ?s0"
  let ?s2 = "re_replace_all (plus is_space) ''-'' ?s1"
  let ?s3 = "re_replace_all (plus (chr CHR ''-'')) ''-'' ?s2"
  let ?s4 = "re_replace_all (Alt (Seq Bol (lit ''-'')) (Seq (lit ''-'') Eol)) [] ?s3"
  let ?s5 = "convertToGerundForm ?s4"
  have 1: "?keep x \<and> \<not> is_upper x" if "x \<in> set ?s1" for x
  proof -
    have "x \<in> set ?s0" using that re_replace_all_subset by fastforce
    then have "\<not> is_upper x" by (rule toLowerCase_not_upper)
    moreover have "?keep x" using re_replace_all_Atom_chars [OF that] by simp
    ultimately show ?thesis by simp
  qed
  have 2: "?P x" if "x \<in> set ?s2" for x
  proof -
    have a: "x \<in> set ''-'' \<or> \<not> is_space x"
      using that by (rule re_replace_all_plus_chars)
    have "x \<in> set ''-'' \<or> x \<in> set ?s1"
      using that re_replace_all_subset by fastforce
    with a 1 show ?thesis by (auto simp: is_word_char_def)
  qed
  have 3: "?P x" if "x \<in> set ?s3" for x
  proof -
    have "x \<in> set ''-'' \<or> x \<in> set ?s2"
      using that re_replace_all_subset by fastforce
    with 2 show ?thesis by auto
  qed
  have 4: "?P x" if "x \<in> set ?s4" for x
  proof -
    have "x \<in> set ?s3"
      using that re_replace_all_subset by fastforce
    with 3 show ?thesis by auto
  qed
  have 5: "\<forall>x \<in> set ?s5. ?P x"
    unfolding convertToGerundForm_def
    by (rule gerund_loop_chars [OF verbMappings_gerund_chars]) (use 4 in auto)
  assume "c \<in> set (normalizeSkillName n)"
  then have "c \<in> set ?s5"
    using re_replace_subset [of "Seq (lit ''-'') Eol" "[]" "substring0 ?s5 64"]
    by (auto simp: normalizeSkillName_def Let_def substring0_def split: if_splits dest: in_set_takeD)
  with 5 show ?thesis by blast
qed

lemma length_normalizeSkillName: "length (normalizeSkillName n) \<le> 64"
proof -
  have "length (re_replace (Seq (lit ''-'') Eol) [] (substring0 s 64)) \<le> 64" for s
    using length_re_replace_empty [of "Seq (lit ''-'') Eol" "substring0 s 64"]
    by (simp add: substring0_def)
  then show ?thesis
    by (simp add: normalizeSkillName_def Let_def)
qed

section \<open>Properties of the generated document\<close>

subsection \<open>Parsing the frontmatter that the generator writes\<close>

lemma star_lazy_no_newline:
  assumes K: "\<And>b' c s' cs'. c \<noteq> CHR 0x0A \<Longrightarrow> K (b', c # s', cs') = None"
  shows "CHR 0x0A \<notin> set pre
    \<Longrightarrow> star_lazy any_char b (pre @ s) cs K = star_lazy any_char (rev pre @ b) s cs K"
  by (induction pre arbitrary: b) (auto simp: K any_char_def)

lemma ngroups_lit: "ngroups (lit w) = 0"
  by (induction w) (simp_all add: lit_def)

lemma frontmatter_match:
  assumes A: "CHR 0x0A \<notin> set A" and B: "CHR 0x0A \<notin> set B" "B \<noteq> []" "hd B \<noteq> CHR ''-''"
  shows "re_match frontmatter_re (''---\<newline>'' @ A @ ''\<newline>'' @ B @ ''\<newline>---'' @ rest)
    = Some [Some (''---\<newline>'' @ A @ ''\<newline>'' @ B @ ''\<newline>---''), Some (A @ ''\<newline>'' @ B)]"
proof -
  define K :: "mstate \<Rightarrow> mstate option" where
    "K = (\<lambda>(b', s', cs').
       rmatch (Seq (lit ''\<newline>---'') Eps)
         (b', s', (1, rev (take (length b' - length ''\<newline>---'') b')) # cs') Some)"
  have Kfail: "K (b', c # s', cs') = None" if "c \<noteq> CHR 0x0A" for b' c s' cs'
    using that by (simp add: K_def rmatch_lit)
  obtain d B' where Bd: "B = d # B'" "d \<noteq> CHR ''-''"
    using B by (cases B) auto
  have Kfail2: "K (b', CHR 0x0A # B @ s', cs') = None" for b' s' cs'
    using Bd(2) by (auto simp: K_def rmatch_lit Bd(1))
  have Ksucc: "K (b', ''\<newline>---'' @ rest, cs')
      = Some (''---\<newline>'' @ b', rest, (1, rev (take (length b' - 4) b')) # cs')" for b' cs'
    by (simp add: K_def rmatch_lit eval_nat_numeral)
  let ?doc = "''---\<newline>'' @ A @ ''\<newline>'' @ B @ ''\<newline>---'' @ rest"
  have "match_here frontmatter_re [] ?doc
      = star_lazy any_char ''\<newline>---'' (A @ ''\<newline>'' @ B @ ''\<newline>---'' @ rest) [] K"
    by (simp add: match_here_def frontmatter_re_def seqs_def rmatch_lit K_def)
  also have "\<dots> = star_lazy any_char (rev A @ ''\<newline>---'') (''\<newline>'' @ B @ ''\<newline>---'' @ rest) [] K"
    by (rule star_lazy_no_newline [where K = K and pre = A]) (simp_all add: Kfail A)
  also have "\<dots> = star_lazy any_char (CHR 0x0A # rev A @ ''\<newline>---'') (B @ ''\<newline>---'' @ rest) [] K"
    by (simp add: Kfail2 any_char_def)
  also have "\<dots> = star_lazy any_char (rev B @ CHR 0x0A # rev A @ ''\<newline>---'') (''\<newline>---'' @ rest) [] K"
    using star_lazy_no_newline [where K = K and pre = B and b = "CHR 0x0A # rev A @ ''\<newline>---''"
        and s = "''\<newline>---'' @ rest" and cs = "[]"]
    by (simp add: Kfail B(1))
  also have "\<dots> = Some (''---\<newline>'' @ rev B @ CHR 0x0A # rev A @ ''\<newline>---'', rest,
      [(1, A @ ''\<newline>'' @ B)])"
    by (rule star_lazy_here)
       (use Ksucc [of "rev B @ CHR 0x0A # rev A @ ''\<newline>---''" "[]"] in simp)
  finally have "re_exec frontmatter_re [] ?doc
      = Some ([], ''---\<newline>'' @ rev B @ CHR 0x0A # rev A @ ''\<newline>---'', rest,
          [(1, A @ ''\<newline>'' @ B)])"
    by (rule re_exec_here)
  moreover have "ngroups frontmatter_re = 1"
    by (simp add: frontmatter_re_def seqs_def ngroups_lit)
  ultimately show ?thesis
    by (simp add: re_match_def)
qed

lemma field_match_here:
  assumes V: "V \<noteq> []" "\<not> is_space (hd V)" "\<forall>c \<in> set V. dot c"
    and s: "s = [] \<or> is_line_terminator (hd s)"
    and b: "b = [] \<or> is_line_terminator (hd b)"
  shows "match_here (seqs [BolM, lit label, Star is_space, Cap 1 (plus dot), EolM]) b
           (label @ '' '' @ V @ s)
         = Some (rev V @ '' '' @ rev label @ b, s, [(1, V)])"
proof -
  obtain v V' where Vv: "V = v # V'" using V(1) by (cases V) auto
  let ?b2 = "'' '' @ rev label @ b"
  define K2 :: "mstate \<Rightarrow> mstate option" where
    "K2 = (\<lambda>(b', s', cs').
       rmatch (Seq EolM Eps) (b', s', (1, rev (take (length b' - length ?b2) b')) # cs') Some)"
  have dots: "dot v" "\<forall>c \<in> set V'. dot c"
    using V(3) by (simp_all add: Vv)
  have nd: "s = [] \<or> \<not> dot (hd s)"
    using s by (auto simp: dot_def)
  have "K2 (rev V' @ v # ?b2, s, []) = Some (rev V' @ v # ?b2, s, [(1, V)])"
    using s by (auto simp: K2_def Vv)
  then have sg: "star_greedy dot (v # ?b2) (V' @ s) [] K2 = Some (rev V' @ v # ?b2, s, [(1, V)])"
    using dots(2) nd by (intro star_greedy_max) auto
  have cap: "rmatch (Seq (Cap 1 (plus dot)) (Seq EolM Eps)) (?b2, V @ s, []) Some
      = Some (rev V @ ?b2, s, [(1, V)])"
    using sg dots(1) by (simp add: plus_def Vv K2_def)
  have sp: "V @ s = [] \<or> \<not> is_space (hd (V @ s))"
    using V by simp
  have "star_greedy is_space (rev label @ b) ('' '' @ V @ s) []
          (\<lambda>st. rmatch (Seq (Cap 1 (plus dot)) (Seq EolM Eps)) st Some)
        = Some (rev V @ ?b2, s, [(1, V)])"
    using sp cap by (intro star_greedy_max) (auto simp: is_space_def)
  then show ?thesis
    using b by (auto simp: match_here_def seqs_def rmatch_lit)
qed

lemma match_here_BolM_fail:
  "b \<noteq> [] \<Longrightarrow> \<not> is_line_terminator (hd b) \<Longrightarrow> match_here (Seq BolM r) b s = None"
  by (simp add: match_here_def)

lemma re_exec_BolM_skip:
  "\<forall>c \<in> set pre. \<not> is_line_terminator c \<Longrightarrow> b \<noteq> [] \<Longrightarrow> \<not> is_line_terminator (hd b)
   \<Longrightarrow> re_exec (Seq BolM r) b (pre @ c # s)
       = map_option (\<lambda>(q, m). (pre @ q, m)) (re_exec (Seq BolM r) (rev pre @ b) (c # s))"
proof (induction pre arbitrary: b)
  case Nil
  then show ?case by (simp add: option.map_ident case_prod_unfold del: re_exec.simps)
next
  case (Cons x pre)
  have "match_here (Seq BolM r) b (x # pre @ c # s) = None"
    using Cons.prems by (intro match_here_BolM_fail) auto
  moreover have "re_exec (Seq BolM r) (x # b) (pre @ c # s)
      = map_option (\<lambda>(q, m). (pre @ q, m)) (re_exec (Seq BolM r) (rev pre @ x # b) (c # s))"
    using Cons.prems by (intro Cons.IH) auto
  ultimately show ?case
    by (cases "re_exec (Seq BolM r) (rev pre @ x # b) (c # s)") auto
qed

lemma trim_id:
  "s \<noteq> [] \<Longrightarrow> \<not> is_space (hd s) \<Longrightarrow> \<not> is_space (last s) \<Longrightarrow> trim s = s"
proof -
  assume a: "s \<noteq> []" "\<not> is_space (hd s)" "\<not> is_space (last s)"
  then have 1: "dropWhile is_space s = s"
    by (cases s) auto
  have "rev s \<noteq> []" "\<not> is_space (hd (rev s))"
    using a by (simp_all add: hd_rev)
  then have "dropWhile is_space (rev s) = rev s"
    by (cases "rev s") auto
  with 1 show ?thesis by (simp add: trim_def)
qed

lemma name_char_plain:
  assumes "is_lower c \<or> is_digit c \<or> c = CHR ''_'' \<or> c = CHR ''-''"
  shows "\<not> is_space c" "\<not> is_line_terminator c" "c \<noteq> CHR 0x0A"
  using assms by (auto simp: is_lower_def is_digit_def is_space_def is_line_terminator_def)

lemma name_match:
  assumes N: "N \<noteq> []" "\<forall>c \<in> set N. \<not> is_space c \<and> \<not> is_line_terminator c"
  shows "\<exists>m0. re_match name_re (''name: '' @ N @ ''\<newline>'' @ B) = Some [m0, Some N]"
proof -
  have "hd N \<in> set N" using N(1) by simp
  then have V: "\<not> is_space (hd N)" "\<forall>c \<in> set N. dot c"
    using N(2) by (auto simp: dot_def)
  have "match_here (seqs [BolM, lit ''name:'', Star is_space, Cap 1 (plus dot), EolM]) []
          (''name:'' @ '' '' @ N @ (''\<newline>'' @ B))
        = Some (rev N @ '' '' @ rev ''name:'' @ [], ''\<newline>'' @ B, [(1, N)])"
    using N(1) V by (intro field_match_here) (auto simp: is_line_terminator_def)
  then have "match_here name_re [] (''name: '' @ N @ ''\<newline>'' @ B)
      = Some (rev N @ '' '' @ rev ''name:'', ''\<newline>'' @ B, [(1, N)])"
    by (simp add: name_re_def)
  then have "re_exec name_re [] (''name: '' @ N @ ''\<newline>'' @ B)
      = Some ([], rev N @ '' '' @ rev ''name:'', ''\<newline>'' @ B, [(1, N)])"
    by (rule re_exec_here)
  moreover have "ngroups name_re = 1"
    by (simp add: name_re_def seqs_def ngroups_lit plus_def)
  ultimately show ?thesis
    by (simp add: re_match_def)
qed

lemma description_match:
  assumes N: "\<forall>c \<in> set N. \<not> is_line_terminator c"
    and D: "D \<noteq> []" "\<not> is_space (hd D)" "\<forall>c \<in> set D. \<not> is_line_terminator c"
  shows "\<exists>m0. re_match description_re (''name: '' @ N @ ''\<newline>'' @ ''description: '' @ D)
           = Some [m0, Some D]"
proof -
  define r where "r = seqs [lit ''description:'', Star is_space, Cap 1 (plus dot), EolM]"
  have dr: "description_re = Seq BolM r"
    by (simp add: description_re_def r_def seqs_def)
  let ?B = "''description: '' @ D"
  let ?pre = "''ame: '' @ N"
  let ?b = "CHR 0x0A # rev ?pre @ ''n''"
  have 1: "match_here (Seq BolM r) [] (CHR ''n'' # ?pre @ CHR 0x0A # ?B) = None"
    by (simp add: match_here_def r_def seqs_def rmatch_lit)
  have pre: "\<forall>c \<in> set ?pre. \<not> is_line_terminator c"
    using N by (auto simp: is_line_terminator_def)
  have 2: "re_exec (Seq BolM r) ''n'' (?pre @ CHR 0x0A # ?B)
      = map_option (\<lambda>(q, m). (?pre @ q, m)) (re_exec (Seq BolM r) (rev ?pre @ ''n'') (CHR 0x0A # ?B))"
    using pre by (intro re_exec_BolM_skip) (auto simp: is_line_terminator_def)
  have "rev ?pre @ ''n'' \<noteq> []" "\<not> is_line_terminator (hd (rev ?pre @ ''n''))"
    using N by (cases "rev N"; auto simp: is_line_terminator_def)+
  then have 3: "match_here (Seq BolM r) (rev ?pre @ ''n'') (CHR 0x0A # ?B) = None"
    by (rule match_here_BolM_fail)
  have "match_here (seqs [BolM, lit ''description:'', Star is_space, Cap 1 (plus dot), EolM]) ?b
          (''description:'' @ '' '' @ D @ [])
        = Some (rev D @ '' '' @ rev ''description:'' @ ?b, [], [(1, D)])"
    using D by (intro field_match_here) (auto simp: dot_def is_line_terminator_def)
  then have 4: "match_here (Seq BolM r) ?b ?B
      = Some (rev D @ '' '' @ rev ''description:'' @ ?b, [], [(1, D)])"
    by (simp add: r_def seqs_def)
  have 5: "re_exec (Seq BolM r) ?b ?B
      = Some ([], rev D @ '' '' @ rev ''description:'' @ ?b, [], [(1, D)])"
    using 4 by (rule re_exec_here)
  have 6: "re_exec (Seq BolM r) (rev ?pre @ ''n'') (CHR 0x0A # ?B)
      = Some ([CHR 0x0A], rev D @ '' '' @ rev ''description:'' @ ?b, [], [(1, D)])"
    using 3 5 by simp
  have 7: "re_exec (Seq BolM r) [] (CHR ''n'' # ?pre @ CHR 0x0A # ?B)
      = Some (CHR ''n'' # ?pre @ [CHR 0x0A], rev D @ '' '' @ rev ''description:'' @ ?b, [],
          [(1, D)])"
    using 1 2 6 by simp
  have "ngroups description_re = 1"
    by (simp add: description_re_def seqs_def ngroups_lit plus_def)
  with 7 show ?thesis
    by (simp add: re_match_def dr)
qed

lemma buildSkillContent_shape:
  "\<exists>rest. buildSkillContent sd si =
     ''---\<newline>'' @ (''name: '' @ frontmatterName sd) @ ''\<newline>''
       @ (''description: '' @ enhancedDescription sd) @ ''\<newline>---'' @ rest"
  by (simp add: buildSkillContent_def Let_def)

lemma star_lazy_result:
  "star_lazy p b s cs K = Some m \<Longrightarrow> \<exists>w s'. s = w @ s' \<and> K (rev w @ b, s', cs) = Some m"
proof (induction s arbitrary: b)
  case Nil
  then show ?case by simp
next
  case (Cons c s)
  show ?case
  proof (cases "K (b, c # s, cs)")
    case (Some m')
    with Cons.prems have "K (rev [] @ b, c # s, cs) = Some m" by simp
    then show ?thesis by (metis append_Nil)
  next
    case None
    with Cons.prems have "star_lazy p (c # b) s cs K = Some m"
      by (auto split: if_splits)
    from Cons.IH [OF this] obtain w s' where "s = w @ s'" "K (rev w @ c # b, s', cs) = Some m"
      by blast
    then have "c # s = (c # w) @ s'" "K (rev (c # w) @ b, s', cs) = Some m"
      by simp_all
    then show ?thesis by blast
  qed
qed

lemma star_lazy_finds:
  "\<forall>c \<in> set w. p c \<Longrightarrow> K (rev w @ b, s, cs) \<noteq> None \<Longrightarrow> star_lazy p b (w @ s) cs K \<noteq> None"
proof (induction w arbitrary: b)
  case Nil
  then show ?case by (cases s) (auto split: option.splits)
next
  case (Cons c w)
  then have "star_lazy p (c # b) (w @ s) cs K \<noteq> None"
    by (intro Cons.IH) auto
  with Cons.prems show ?case
    by (auto split: option.splits)
qed

text \<open>
  The frontmatter of a document whose first line after the opening fence holds no
  line feed and whose second line does not start with a hyphen begins with these
  two lines, whatever follows, once a closing fence follows somewhere.
\<close>

lemma frontmatter_match_first_line:
  assumes A: "CHR 0x0A \<notin> set A" and d: "d \<noteq> CHR ''-''"
  shows "\<exists>m0 B'. re_match frontmatter_re (''---\<newline>'' @ A @ ''\<newline>'' @ (d # B) @ ''\<newline>---'' @ rest)
    = Some [m0, Some (A @ ''\<newline>'' @ B')]"
proof -
  define K :: "mstate \<Rightarrow> mstate option" where
    "K = (\<lambda>(b', s', cs').
       rmatch (Seq (lit ''\<newline>---'') Eps)
         (b', s', (1, rev (take (length b' - length ''\<newline>---'') b')) # cs') Some)"
  have Kfail: "K (b', c # s', cs') = None" if "c \<noteq> CHR 0x0A" for b' c s' cs'
    using that by (simp add: K_def rmatch_lit)
  have Kfail2: "K (b', CHR 0x0A # (d # B) @ s', cs') = None" for b' s' cs'
    using d by (auto simp: K_def rmatch_lit)
  have Kval: "K (b', s', cs') = Some m \<Longrightarrow>
      m = (''---\<newline>'' @ b', drop 4 s', (1, rev (take (length b' - 4) b')) # cs')" for b' s' cs' m
    by (auto simp: K_def rmatch_lit eval_nat_numeral split: if_splits)
  have Ksucc: "K (b', ''\<newline>---'' @ rest, cs') \<noteq> None" for b' cs'
    by (simp add: K_def rmatch_lit)
  let ?doc = "''---\<newline>'' @ A @ ''\<newline>'' @ (d # B) @ ''\<newline>---'' @ rest"
  let ?b1 = "CHR 0x0A # rev A @ ''\<newline>---''"
  have "match_here frontmatter_re [] ?doc
      = star_lazy any_char ''\<newline>---'' (A @ ''\<newline>'' @ (d # B) @ ''\<newline>---'' @ rest) [] K"
    by (simp add: match_here_def frontmatter_re_def seqs_def rmatch_lit K_def)
  also have "\<dots> = star_lazy any_char (rev A @ ''\<newline>---'') (''\<newline>'' @ (d # B) @ ''\<newline>---'' @ rest) [] K"
    by (rule star_lazy_no_newline [where K = K and pre = A]) (simp_all add: Kfail A)
  also have "\<dots> = star_lazy any_char ?b1 ((d # B) @ ''\<newline>---'' @ rest) [] K"
    using Kfail2 [of "rev A @ ''\<newline>---''" "''\<newline>---'' @ rest" "[]"]
    by (simp add: any_char_def)
  finally have mh: "match_here frontmatter_re [] ?doc
      = star_lazy any_char ?b1 ((d # B) @ ''\<newline>---'' @ rest) [] K" .
  have "star_lazy any_char ?b1 ((d # B) @ ''\<newline>---'' @ rest) [] K \<noteq> None"
  proof (rule star_lazy_finds)
    show "\<forall>c \<in> set (d # B). any_char c" by (simp add: any_char_def)
    show "K (rev (d # B) @ ?b1, ''\<newline>---'' @ rest, []) \<noteq> None" by (rule Ksucc)
  qed
  then obtain m where m: "star_lazy any_char ?b1 ((d # B) @ ''\<newline>---'' @ rest) [] K = Some m"
    by blast
  from star_lazy_result [OF this] obtain w s' where
    w: "K (rev w @ ?b1, s', []) = Some m"
    by blast
  from Kval [OF w] have mv: "m = (''---\<newline>'' @ rev w @ ?b1, drop 4 s',
      [(1, rev (take (length (rev w @ ?b1) - 4) (rev w @ ?b1)))])" .
  have cap: "rev (take (length (rev w @ ?b1) - 4) (rev w @ ?b1)) = A @ ''\<newline>'' @ w"
    by simp
  have "re_exec frontmatter_re [] ?doc = Some ([], m)"
    using mh m by (intro re_exec_here) simp
  moreover have "ngroups frontmatter_re = 1"
    by (simp add: frontmatter_re_def seqs_def ngroups_lit)
  ultimately have "re_match frontmatter_re ?doc
      = Some [Some (rev (''---\<newline>'' @ rev w @ ?b1)), Some (A @ ''\<newline>'' @ w)]"
    unfolding mv cap [symmetric] by (simp add: re_match_def)
  then show ?thesis by blast
qed

lemma trim_fixed:
  assumes "trim s = s" "s \<noteq> []"
  shows "\<not> is_space (hd s)" "\<not> is_space (last s)"
proof -
  let ?x = "dropWhile is_space s"
  have l1: "length (trim s) \<le> length ?x"
    using length_dropWhile_le [of is_space "rev ?x"] by (simp add: trim_def)
  have l2: "length ?x \<le> length s"
    by (rule length_dropWhile_le)
  show h: "\<not> is_space (hd s)"
  proof
    assume "is_space (hd s)"
    then have "length ?x < length s"
      using assms(2) length_dropWhile_le [of is_space "tl s"] by (cases s) auto
    with l1 assms(1) show False by simp
  qed
  then have x: "?x = s"
    using assms(2) by (cases s) auto
  show "\<not> is_space (last s)"
  proof
    assume "is_space (last s)"
    then have "is_space (hd (rev s))"
      using assms(2) by (simp add: hd_rev)
    then have "length (dropWhile is_space (rev s)) < length (rev s)"
      using assms(2) length_dropWhile_le [of is_space "tl (rev s)"] by (cases "rev s") auto
    then have "length (trim s) < length s"
      by (simp add: trim_def x)
    with assms(1) show False by simp
  qed
qed

lemma description_match_empty:
  assumes N: "\<forall>c \<in> set N. \<not> is_line_terminator c"
  shows "\<exists>m0. re_match description_re (''name: '' @ N @ ''\<newline>'' @ ''description: '')
           = Some [m0, Some '' '']"
proof -
  define r where "r = seqs [lit ''description:'', Star is_space, Cap 1 (plus dot), EolM]"
  have dr: "description_re = Seq BolM r"
    by (simp add: description_re_def r_def seqs_def)
  let ?B = "''description: ''"
  let ?pre = "''ame: '' @ N"
  let ?b = "CHR 0x0A # rev ?pre @ ''n''"
  have 1: "match_here (Seq BolM r) [] (CHR ''n'' # ?pre @ CHR 0x0A # ?B) = None"
    by (simp add: match_here_def r_def seqs_def rmatch_lit)
  have pre: "\<forall>c \<in> set ?pre. \<not> is_line_terminator c"
    using N by (auto simp: is_line_terminator_def)
  have 2: "re_exec (Seq BolM r) ''n'' (?pre @ CHR 0x0A # ?B)
      = map_option (\<lambda>(q, m). (?pre @ q, m)) (re_exec (Seq BolM r) (rev ?pre @ ''n'') (CHR 0x0A # ?B))"
    using pre by (intro re_exec_BolM_skip) (auto simp: is_line_terminator_def)
  have "rev ?pre @ ''n'' \<noteq> []" "\<not> is_line_terminator (hd (rev ?pre @ ''n''))"
    using N by (cases "rev N"; auto simp: is_line_terminator_def)+
  then have 3: "match_here (Seq BolM r) (rev ?pre @ ''n'') (CHR 0x0A # ?B) = None"
    by (rule match_here_BolM_fail)
  have 4: "match_here (Seq BolM r) ?b ?B
      = Some ('' '' @ rev ''description:'' @ ?b, [], [(1, '' '')])"
    by (simp add: match_here_def r_def seqs_def rmatch_lit plus_def is_space_def dot_def
        is_line_terminator_def)
  have 5: "re_exec (Seq BolM r) ?b ?B
      = Some ([], '' '' @ rev ''description:'' @ ?b, [], [(1, '' '')])"
    using 4 by (rule re_exec_here)
  have 6: "re_exec (Seq BolM r) (rev ?pre @ ''n'') (CHR 0x0A # ?B)
      = Some ([CHR 0x0A], '' '' @ rev ''description:'' @ ?b, [], [(1, '' '')])"
    using 3 5 by simp
  have 7: "re_exec (Seq BolM r) [] (CHR ''n'' # ?pre @ CHR 0x0A # ?B)
      = Some (CHR ''n'' # ?pre @ [CHR 0x0A], '' '' @ rev ''description:'' @ ?b, [],
          [(1, '' '')])"
    using 1 2 6 by simp
  have "ngroups description_re = 1"
    by (simp add: description_re_def seqs_def ngroups_lit plus_def)
  with 7 show ?thesis
    by (simp add: re_match_def dr)
qed

text \<open>
  C3 (as amended). Parsing the document that \<open>buildSkillContent\<close> produces gives
  back the name written into the frontmatter (the normalized \<open>skillName\<close>, or the
  normalized title when there is no \<open>skillName\<close>) whenever this name is not empty, and
  the description written there (the description or else the title, with the clause on
  when to use the skill appended when it has none, cut at 1024 characters) whenever
  this description holds no line terminator and neither starts nor ends with white
  space.
\<close>

theorem frontmatter_round_trip:
  "(frontmatterName sd \<noteq> []
      \<longrightarrow> parsed_name (parseSkillContent (buildSkillContent sd si)) = frontmatterName sd)
   \<and> ((\<forall>c \<in> set (enhancedDescription sd). \<not> is_line_terminator c)
       \<and> trim (enhancedDescription sd) = enhancedDescription sd
      \<longrightarrow> parsed_description (parseSkillContent (buildSkillContent sd si))
            = enhancedDescription sd)"
proof -
  let ?N = "frontmatterName sd" and ?D = "enhancedDescription sd"
  let ?doc = "buildSkillContent sd si"
  have Nc: "\<forall>c \<in> set ?N. \<not> is_space c \<and> \<not> is_line_terminator c \<and> c \<noteq> CHR 0x0A"
  proof
    fix c assume "c \<in> set ?N"
    then have "is_lower c \<or> is_digit c \<or> c = CHR ''_'' \<or> c = CHR ''-''"
      unfolding frontmatterName_def by (rule normalizeSkillName_chars)
    then show "\<not> is_space c \<and> \<not> is_line_terminator c \<and> c \<noteq> CHR 0x0A"
      by (simp add: name_char_plain)
  qed
  obtain rest where doc: "?doc =
      ''---\<newline>'' @ (''name: '' @ ?N) @ ''\<newline>'' @ (''description: '' @ ?D) @ ''\<newline>---'' @ rest"
    using buildSkillContent_shape by blast
  have name: "parsed_name (parseSkillContent ?doc) = ?N" if N: "?N \<noteq> []"
  proof -
    have "\<exists>m0 B'. re_match frontmatter_re
          (''---\<newline>'' @ (''name: '' @ ?N) @ ''\<newline>'' @ (CHR ''d'' # ''escription: '' @ ?D)
             @ ''\<newline>---'' @ rest)
        = Some [m0, Some ((''name: '' @ ?N) @ ''\<newline>'' @ B')]"
      using Nc by (intro frontmatter_match_first_line) auto
    then obtain m0 B' where fm: "re_match frontmatter_re ?doc
        = Some [m0, Some (''name: '' @ ?N @ ''\<newline>'' @ B')]"
      unfolding doc by auto
    obtain m1 where nm: "re_match name_re (''name: '' @ ?N @ ''\<newline>'' @ B') = Some [m1, Some ?N]"
      using name_match [of ?N B'] N Nc by blast
    have "hd ?N \<in> set ?N" "last ?N \<in> set ?N"
      using N by simp_all
    then have tn: "trim ?N = ?N"
      using N Nc by (intro trim_id) auto
    show ?thesis
      using nm tn by (simp add: parseSkillContent_def Let_def fm group_def)
  qed
  have desc: "parsed_description (parseSkillContent ?doc) = ?D"
    if D: "\<forall>c \<in> set ?D. \<not> is_line_terminator c" "trim ?D = ?D"
  proof -
    have Dn: "CHR 0x0A \<notin> set ?D"
      using D(1) by (auto simp: is_line_terminator_def)
    have fm: "re_match frontmatter_re ?doc
        = Some [Some (''---\<newline>'' @ (''name: '' @ ?N) @ ''\<newline>'' @ (''description: '' @ ?D) @ ''\<newline>---''),
                Some ((''name: '' @ ?N) @ ''\<newline>'' @ (''description: '' @ ?D))]"
      unfolding doc using Nc Dn by (intro frontmatter_match) auto
    show ?thesis
    proof (cases "?D = []")
      case True
      obtain m1 where "re_match description_re (''name: '' @ ?N @ ''\<newline>'' @ ''description: '')
          = Some [m1, Some '' '']"
        using description_match_empty [of ?N] Nc by blast
      moreover have "trim '' '' = []"
        by (simp add: trim_def is_space_def)
      ultimately show ?thesis
        using True by (simp add: parseSkillContent_def Let_def fm group_def)
    next
      case False
      note e = trim_fixed [OF D(2) False]
      obtain m1 where dm: "re_match description_re
            (''name: '' @ ?N @ ''\<newline>'' @ ''description: '' @ ?D) = Some [m1, Some ?D]"
        using description_match [of ?N ?D] False e(1) D(1) Nc by blast
      show ?thesis
        using dm D(2) by (simp add: parseSkillContent_def Let_def fm group_def)
    qed
  qed
  from name desc show ?thesis by blast
qed

theorem frontmatter_round_trip_witness:
  "frontmatterName
     ((candidate ''Avoid Direct State'' ''Avoid mutating state directly.'' [])
        \<lparr>category := ''anti-pattern''\<rparr>) = ''avoiding-direct-state''
   \<and> enhancedDescription
     ((candidate ''Avoid Direct State'' ''Avoid mutating state directly.'' [])
        \<lparr>category := ''anti-pattern''\<rparr>)
     = ''Avoid mutating state directly. Use when reviewing code to avoid this pattern.''
   \<and> parsed_name (parseSkillContent (buildSkillContent
     ((candidate ''Avoid Direct State'' ''Avoid mutating state directly.'' [])
        \<lparr>category := ''anti-pattern''\<rparr>)
     \<lparr>pr = 7, author = ''ann'', date = [], file = []\<rparr>)) = ''avoiding-direct-state''
   \<and> parsed_description (parseSkillContent (buildSkillContent
     ((candidate ''Avoid Direct State'' ''Avoid mutating state directly.'' [])
        \<lparr>category := ''anti-pattern''\<rparr>)
     \<lparr>pr = 7, author = ''ann'', date = [], file = []\<rparr>))
     = ''Avoid mutating state directly. Use when reviewing code to avoid this pattern.''"
proof -
  let ?sd = "(candidate ''Avoid Direct State'' ''Avoid mutating state directly.'' [])
        \<lparr>category := ''anti-pattern''\<rparr>"
  have n: "frontmatterName ?sd = ''avoiding-direct-state''"
    by code_simp
  have d: "enhancedDescription ?sd
      = ''Avoid mutating state directly. Use when reviewing code to avoid this pattern.''"
    by code_simp
  have h1: "frontmatterName ?sd \<noteq> []"
    unfolding n by simp
  have h2: "(\<forall>c \<in> set (enhancedDescription ?sd). \<not> is_line_terminator c)
      \<and> trim (enhancedDescription ?sd) = enhancedDescription ?sd"
    unfolding d by (simp add: is_line_terminator_def is_space_def trim_def)
  show ?thesis
    using h1 h2
      frontmatter_round_trip [of ?sd "\<lparr>pr = 7, author = ''ann'', date = [], file = []\<rparr>"]
    unfolding n d by blast
qed

text \<open>
  C3 as stated fails. For a skill without \<open>skillName\<close> whose title is \<open>!!!\<close> the name
  written is empty, and the parser returns the line of the description as the name;
  a description that ends with a space or that has two lines does not come back
  either.
\<close>

theorem frontmatter_round_trip_counterexample:
  "frontmatterName (candidate ''!!!'' ''Use when x'' []) = []
   \<and> parsed_name (parseSkillContent (buildSkillContent (candidate ''!!!'' ''Use when x'' [])
        \<lparr>pr = 0, author = [], date = [], file = []\<rparr>)) = ''description: Use when x''
   \<and> enhancedDescription (candidate ''T'' ''Use when x '' []) = ''Use when x ''
   \<and> parsed_description (parseSkillContent (buildSkillContent (candidate ''T'' ''Use when x '' [])
        \<lparr>pr = 0, author = [], date = [], file = []\<rparr>)) = ''Use when x''
   \<and> enhancedDescription (candidate ''T'' ''Use when a\<newline>b'' []) = ''Use when a\<newline>b''
   \<and> parsed_description (parseSkillContent (buildSkillContent (candidate ''T'' ''Use when a\<newline>b'' [])
        \<lparr>pr = 0, author = [], date = [], file = []\<rparr>)) = ''Use when a''"
  by code_simp

section \<open>Properties of the progressive disclosure\<close>

subsection \<open>Lines\<close>

lemma length_split_char: "length (split_char d s) = Suc (count_list s d)"
  by (induction s) (auto split: list.splits)

lemma split_char_not_Nil: "split_char d s \<noteq> []"
  by (induction s) (auto split: list.splits)

lemma set_trim: "set (trim s) \<subseteq> set s"
proof -
  have "set (dropWhile is_space (rev (dropWhile is_space s))) \<subseteq> set (rev (dropWhile is_space s))"
    by (rule set_dropWhileD [THEN subsetI])
  also have "\<dots> \<subseteq> set s"
    by (auto dest: set_dropWhileD)
  finally show ?thesis by (simp add: trim_def)
qed

lemma makeConcise_one_line: "CHR 0x0A \<notin> set (makeConcise t)"
proof (cases "t = []")
  case True
  then show ?thesis by (simp add: makeConcise_def)
next
  case False
  then obtain u where u: "makeConcise t = trim (re_replace_all (plus is_space) '' '' u)"
    by (simp add: makeConcise_def)
  have "x \<in> set '' '' \<or> \<not> is_space x" if "x \<in> set (re_replace_all (plus is_space) '' '' u)" for x
    using that by (rule re_replace_all_plus_chars)
  then have "CHR 0x0A \<notin> set (re_replace_all (plus is_space) '' '' u)"
    by (auto simp: is_space_def)
  then show ?thesis
    unfolding u using set_trim by blast
qed

lemma string_of_nat_digits: "c \<in> set (string_of_nat n) \<Longrightarrow> is_digit c"
proof (induction n arbitrary: c rule: string_of_nat.induct)
  case (1 n)
  have d: "k < 10 \<Longrightarrow> is_digit (''0123456789'' ! k)" for k
  proof -
    assume "k < 10"
    then have "k \<in> {0, 1, 2, 3, 4, 5, 6, 7, 8, 9}" by auto
    then show ?thesis by (auto simp: is_digit_def)
  qed
  show ?case
  proof (cases "n < 10")
    case True
    with "1.prems" d [of n] show ?thesis
      by (subst (asm) string_of_nat.simps) auto
  next
    case False
    with "1.prems" "1.IH" d [of "n mod 10"] show ?thesis
      by (subst (asm) string_of_nat.simps) auto
  qed
qed

lemma string_of_nat_one_line: "CHR 0x0A \<notin> set (string_of_nat n)"
  using string_of_nat_digits [of "CHR 0x0A" n] by (auto simp: is_digit_def)

lemma toUpperChar_newline: "(toUpperChar c = CHR 0x0A) = (c = CHR 0x0A)"
  by (auto simp: toUpperChar_def split: if_splits)

lemma toUpperCase_one_line: "CHR 0x0A \<notin> set s \<Longrightarrow> CHR 0x0A \<notin> set (toUpperCase s)"
proof
  assume n: "CHR 0x0A \<notin> set s" and "CHR 0x0A \<in> set (toUpperCase s)"
  then obtain c where c: "c \<in> set s" "toUpperChar c = CHR 0x0A"
    unfolding toUpperCase_def by (metis imageE list.set_map)
  from c(2) have "c = CHR 0x0A" by (simp only: toUpperChar_newline)
  with c(1) n show False by simp
qed

lemma frontmatterName_one_line: "CHR 0x0A \<notin> set (frontmatterName sd)"
  unfolding frontmatterName_def
  using normalizeSkillName_chars name_char_plain(3) by blast

lemma addWhenToUse_one_line:
  "CHR 0x0A \<notin> set d \<Longrightarrow> CHR 0x0A \<notin> set dm \<Longrightarrow> CHR 0x0A \<notin> set (addWhenToUse d c dm)"
  by (simp add: addWhenToUse_def toUpperCase_one_line)

lemma enhancedDescription_one_line:
  assumes "CHR 0x0A \<notin> set (title sd)" "CHR 0x0A \<notin> set (description sd)"
    "CHR 0x0A \<notin> set (domain sd)"
  shows "CHR 0x0A \<notin> set (enhancedDescription sd)"
proof -
  let ?d = "if description sd \<noteq> [] then description sd else title sd"
  let ?dm = "if domain sd \<noteq> [] then domain sd else ''general''"
  let ?e = "if \<not> hasWhenToUse ?d then addWhenToUse ?d (category sd) ?dm else ?d"
  have d: "CHR 0x0A \<notin> set ?d" using assms by simp
  have dm: "CHR 0x0A \<notin> set ?dm" using assms by simp
  have e: "CHR 0x0A \<notin> set ?e"
    using addWhenToUse_one_line [OF d dm] d by presburger
  have "enhancedDescription sd = (if 1024 < length ?e then substring0 ?e 1021 @ ''...'' else ?e)"
    by (simp add: enhancedDescription_def Let_def)
  moreover have "CHR 0x0A \<notin> set (substring0 ?e 1021 @ ''...'')"
    using e by (auto simp: substring0_def dest: in_set_takeD)
  ultimately show ?thesis using e by presburger
qed

lemma count_list_le_one: "x \<notin> set a \<Longrightarrow> count_list a x = 0"
  by (simp add: count_list_0_iff)

lemma sourceFields_lines:
  assumes "CHR 0x0A \<notin> set (author si)" "CHR 0x0A \<notin> set (date si)" "CHR 0x0A \<notin> set (file si)"
  shows "count_list (sourceFields si) CHR 0x0A \<le> 4"
  using assms string_of_nat_one_line [of "pr si"]
  by (simp add: sourceFields_def count_list_0_iff)

lemma sourceLine_lines:
  assumes "CHR 0x0A \<notin> set (author s)"
  shows "count_list (sourceLine s) CHR 0x0A \<le> 1"
  using assms string_of_nat_one_line [of "pr s"]
  by (simp add: sourceLine_def count_list_0_iff)

lemma count_list_concat: "count_list (concat xss) x = sum_list (map (\<lambda>xs. count_list xs x) xss)"
  by (induction xss) simp_all

lemma sourceLines_lines:
  assumes "\<forall>s \<in> set xs. CHR 0x0A \<notin> set (author s)"
  shows "count_list (concat (map sourceLine xs)) CHR 0x0A \<le> length xs"
  using assms
proof (induction xs)
  case Nil
  then show ?case by simp
next
  case (Cons s xs)
  then have "count_list (sourceLine s) CHR 0x0A \<le> 1"
    by (intro sourceLine_lines) simp
  with Cons show ?case by simp
qed

subsection \<open>Pointers to the reference files\<close>

lemma includes_str_prefix: "prefix p s \<Longrightarrow> includes_str s p"
  by (cases s) auto

lemma includes_str_append2: "includes_str t p \<Longrightarrow> includes_str (s @ t) p"
  by (induction s) auto

lemma includes_str_append1: "includes_str s p \<Longrightarrow> includes_str (s @ t) p"
proof (induction s)
  case Nil
  then show ?case by (simp add: includes_str_prefix)
next
  case (Cons c s)
  show ?case
  proof (cases "prefix p (c # s)")
    case True
    then have "prefix p ((c # s) @ t)" by (rule prefix_prefix)
    then show ?thesis by simp
  next
    case False
    with Cons show ?thesis by simp
  qed
qed

text \<open>The main document of \<open>applyProgressiveDisclosure\<close> in four parts.\<close>

lemma applyProgressiveDisclosure_parts:
  "mainContent (applyProgressiveDisclosure sd si dir) =
     (''---\<newline>name: '' @ frontmatterName sd @ ''\<newline>description: '' @ enhancedDescription sd
        @ ''\<newline>---\<newline>\<newline># '' @ title sd @ ''\<newline>\<newline>## Overview\<newline>\<newline>'' @ makeConcise (instructions sd)
        @ ''\<newline>\<newline>'')
     @ (if badExample sd \<noteq> [] \<or> goodExample sd \<noteq> []
        then ''## Examples\<newline>\<newline>See [EXAMPLES.md](EXAMPLES.md) for code examples.\<newline>\<newline>''
        else [])
     @ (let categoryContent = (if category sd = ''anti-pattern'' then antiPattern sd
                               else bestPractice sd)
        in if categoryContent \<noteq> [] \<and> 500 < length categoryContent
           then (''## '' @ (if category sd = ''anti-pattern'' then ''Anti-Pattern Details''
                           else ''Best Practice Details'') @ ''\<newline>\<newline>'')
                @ ''See [DETAILS.md](DETAILS.md) for detailed guidance.\<newline>\<newline>''
           else if categoryContent \<noteq> []
           then ''## '' @ (if category sd = ''anti-pattern'' then ''Anti-Pattern''
                          else ''Best Practice'')
                @ ''\<newline>\<newline>'' @ makeConcise categoryContent @ ''\<newline>\<newline>''
           else [])
     @ buildSourceMetadata si (sources sd)"
  by (simp add: applyProgressiveDisclosure_def Let_def)

lemma applyProgressiveDisclosure_files:
  "referenceFiles (applyProgressiveDisclosure sd si dir) =
     (if badExample sd \<noteq> [] \<or> goodExample sd \<noteq> []
      then [\<lparr>ref_dir = dir, ref_name = ''EXAMPLES.md'', ref_content = buildExamplesFile sd\<rparr>]
      else [])
     @ (let categoryContent = (if category sd = ''anti-pattern'' then antiPattern sd
                               else bestPractice sd)
        in if categoryContent \<noteq> [] \<and> 500 < length categoryContent
           then [\<lparr>ref_dir = dir, ref_name = ''DETAILS.md'', ref_content = buildDetailsFile sd\<rparr>]
           else [])"
  by (simp add: applyProgressiveDisclosure_def Let_def)

lemma applyProgressiveDisclosure_pointers:
  assumes "f \<in> set (referenceFiles (applyProgressiveDisclosure sd si dir))"
  shows "includes_str (mainContent (applyProgressiveDisclosure sd si dir)) (ref_name f)"
proof -
  have ex: "includes_str
      ''## Examples\<newline>\<newline>See [EXAMPLES.md](EXAMPLES.md) for code examples.\<newline>\<newline>'' ''EXAMPLES.md''"
    by code_simp
  have det: "includes_str ''See [DETAILS.md](DETAILS.md) for detailed guidance.\<newline>\<newline>'' ''DETAILS.md''"
    by code_simp
  let ?cc = "if category sd = ''anti-pattern'' then antiPattern sd else bestPractice sd"
  from assms consider
      (examples) "badExample sd \<noteq> [] \<or> goodExample sd \<noteq> []" "ref_name f = ''EXAMPLES.md''"
    | (details) "?cc \<noteq> [] \<and> 500 < length ?cc" "ref_name f = ''DETAILS.md''"
    unfolding applyProgressiveDisclosure_files Let_def
    by (auto split: if_splits)
  then show ?thesis
  proof cases
    case examples
    show ?thesis
      unfolding applyProgressiveDisclosure_parts examples(2)
      apply (rule includes_str_append2)
      apply (rule includes_str_append1)
      using examples(1) ex apply presburger
      done
  next
    case details
    let ?head = "''## '' @ (if category sd = ''anti-pattern'' then ''Anti-Pattern Details''
                           else ''Best Practice Details'') @ ''\<newline>\<newline>''"
    let ?P3 = "let categoryContent = (if category sd = ''anti-pattern'' then antiPattern sd
                               else bestPractice sd)
        in if categoryContent \<noteq> [] \<and> 500 < length categoryContent
           then (''## '' @ (if category sd = ''anti-pattern'' then ''Anti-Pattern Details''
                           else ''Best Practice Details'') @ ''\<newline>\<newline>'')
                @ ''See [DETAILS.md](DETAILS.md) for detailed guidance.\<newline>\<newline>''
           else if categoryContent \<noteq> []
           then ''## '' @ (if category sd = ''anti-pattern'' then ''Anti-Pattern''
                          else ''Best Practice'')
                @ ''\<newline>\<newline>'' @ makeConcise categoryContent @ ''\<newline>\<newline>''
           else []"
    have "?P3 = ?head @ ''See [DETAILS.md](DETAILS.md) for detailed guidance.\<newline>\<newline>''"
      using details(1) by (simp add: Let_def)
    then have "includes_str ?P3 ''DETAILS.md''"
      using det includes_str_append2 by metis
    then show ?thesis
      unfolding applyProgressiveDisclosure_parts details(2)
      by (intro includes_str_append2 includes_str_append1)
  qed
qed

subsection \<open>The number of lines of the generated documents\<close>

lemma buildSourceMetadata_lines:
  assumes "CHR 0x0A \<notin> set (author si)" "CHR 0x0A \<notin> set (date si)" "CHR 0x0A \<notin> set (file si)"
    and "\<forall>s \<in> set xs. CHR 0x0A \<notin> set (author s)"
  shows "count_list (buildSourceMetadata si xs) CHR 0x0A \<le> 9 + length xs"
proof -
  have 1: "count_list (sourceFields si) CHR 0x0A \<le> 4"
    using assms(1-3) by (rule sourceFields_lines)
  have 2: "count_list (concat (map sourceLine xs)) CHR 0x0A \<le> length xs"
    using assms(4) by (rule sourceLines_lines)
  show ?thesis
    using 1 2 by (simp add: buildSourceMetadata_def Let_def)
qed

lemma applyProgressiveDisclosure_lines:
  assumes "CHR 0x0A \<notin> set (title sd)" "CHR 0x0A \<notin> set (description sd)"
    "CHR 0x0A \<notin> set (domain sd)"
    and "CHR 0x0A \<notin> set (author si)" "CHR 0x0A \<notin> set (date si)" "CHR 0x0A \<notin> set (file si)"
    and "\<forall>s \<in> set (sources sd). CHR 0x0A \<notin> set (author s)"
  shows "count_list (mainContent (applyProgressiveDisclosure sd si dir)) CHR 0x0A
    \<le> 28 + length (sources sd)"
proof -
  have n: "count_list (frontmatterName sd) CHR 0x0A = 0"
    by (simp add: frontmatterName_one_line)
  have d: "count_list (enhancedDescription sd) CHR 0x0A = 0"
    using assms(1-3) by (simp add: enhancedDescription_one_line)
  have t: "count_list (title sd) CHR 0x0A = 0"
    using assms(1) by simp
  have c: "count_list (makeConcise x) CHR 0x0A = 0" for x
    by (simp add: makeConcise_one_line)
  have m: "count_list (buildSourceMetadata si (sources sd)) CHR 0x0A \<le> 9 + length (sources sd)"
    using assms(4-7) by (rule buildSourceMetadata_lines)
  show ?thesis
    unfolding applyProgressiveDisclosure_parts
    using m by (simp add: n d t c Let_def)
qed

lemma buildSkillContent_lines_without_examples:
  assumes "CHR 0x0A \<notin> set (title sd)" "CHR 0x0A \<notin> set (description sd)"
    "CHR 0x0A \<notin> set (domain sd)"
    and "CHR 0x0A \<notin> set (author si)" "CHR 0x0A \<notin> set (date si)" "CHR 0x0A \<notin> set (file si)"
    and "\<forall>s \<in> set (sources sd). CHR 0x0A \<notin> set (author s)"
    and "badExample sd = []" "goodExample sd = []"
  shows "count_list (buildSkillContent sd si) CHR 0x0A \<le> 23 + length (sources sd)"
proof -
  have n: "count_list (frontmatterName sd) CHR 0x0A = 0"
    by (simp add: frontmatterName_one_line)
  have d: "count_list (enhancedDescription sd) CHR 0x0A = 0"
    using assms(1-3) by (simp add: enhancedDescription_one_line)
  have t: "count_list (title sd) CHR 0x0A = 0"
    using assms(1) by simp
  have c: "count_list (makeConcise x) CHR 0x0A = 0" for x
    by (simp add: makeConcise_one_line)
  have f: "count_list (sourceFields si) CHR 0x0A \<le> 4"
    using assms(4-6) by (rule sourceFields_lines)
  have "\<forall>s \<in> set (drop 1 (sources sd)). CHR 0x0A \<notin> set (author s)"
    using assms(7) by (auto dest: in_set_dropD)
  then have "count_list (concat (map sourceLine (drop 1 (sources sd)))) CHR 0x0A
      \<le> length (drop 1 (sources sd))"
    by (rule sourceLines_lines)
  then have l: "count_list (concat (map sourceLine (drop 1 (sources sd)))) CHR 0x0A
      \<le> length (sources sd) - 1"
    by simp
  show ?thesis
    using f l by (auto simp add: buildSkillContent_def Let_def n d t c assms(8,9))
qed

text \<open>
  C2 (as amended). For a skill whose rendered content has more than 500 lines, the
  main document that \<open>generateSkill\<close> writes contains the name of every reference file
  produced. When moreover the title, the description, the domain, the author, the
  date and the file of the source and the authors of the sources hold no line feed and
  the skill has at most 471 sources, the main document has at most 500 lines and at
  least one reference file is produced.
\<close>

theorem progressive_disclosure_bound:
  assumes exceeds: "maxSkillLines < length (split_char CHR 0x0A (buildSkillContent sd si))"
  shows "(\<forall>f \<in> set (referenceFiles (generateSkill_content sd si dir)).
            includes_str (mainContent (generateSkill_content sd si dir)) (ref_name f))
    \<and> (CHR 0x0A \<notin> set (title sd) \<and> CHR 0x0A \<notin> set (description sd)
        \<and> CHR 0x0A \<notin> set (domain sd) \<and> CHR 0x0A \<notin> set (author si)
        \<and> CHR 0x0A \<notin> set (date si) \<and> CHR 0x0A \<notin> set (file si)
        \<and> (\<forall>s \<in> set (sources sd). CHR 0x0A \<notin> set (author s))
        \<and> length (sources sd) \<le> 471
        \<longrightarrow> length (split_char CHR 0x0A (mainContent (generateSkill_content sd si dir)))
              \<le> maxSkillLines
            \<and> referenceFiles (generateSkill_content sd si dir) \<noteq> [])"
proof -
  have g: "generateSkill_content sd si dir = applyProgressiveDisclosure sd si dir"
    using exceeds by (simp add: generateSkill_content_def Let_def)
  have pointers: "\<forall>f \<in> set (referenceFiles (generateSkill_content sd si dir)).
      includes_str (mainContent (generateSkill_content sd si dir)) (ref_name f)"
    unfolding g by (auto intro: applyProgressiveDisclosure_pointers)
  have bound: "length (split_char CHR 0x0A (mainContent (generateSkill_content sd si dir)))
        \<le> maxSkillLines
      \<and> referenceFiles (generateSkill_content sd si dir) \<noteq> []"
    if one: "CHR 0x0A \<notin> set (title sd)" "CHR 0x0A \<notin> set (description sd)"
      "CHR 0x0A \<notin> set (domain sd)" "CHR 0x0A \<notin> set (author si)"
      "CHR 0x0A \<notin> set (date si)" "CHR 0x0A \<notin> set (file si)"
      "\<forall>s \<in> set (sources sd). CHR 0x0A \<notin> set (author s)"
      and few: "length (sources sd) \<le> 471"
  proof -
    have ex: "badExample sd \<noteq> [] \<or> goodExample sd \<noteq> []"
    proof (rule ccontr)
      assume "\<not> (badExample sd \<noteq> [] \<or> goodExample sd \<noteq> [])"
      then have "count_list (buildSkillContent sd si) CHR 0x0A \<le> 23 + length (sources sd)"
        using one by (intro buildSkillContent_lines_without_examples) auto
      with few exceeds show False
        by (simp add: length_split_char maxSkillLines_def)
    qed
    have "count_list (mainContent (applyProgressiveDisclosure sd si dir)) CHR 0x0A
        \<le> 28 + length (sources sd)"
      using one by (rule applyProgressiveDisclosure_lines)
    with few have "length (split_char CHR 0x0A (mainContent (applyProgressiveDisclosure sd si dir)))
        \<le> maxSkillLines"
      by (simp add: length_split_char maxSkillLines_def)
    moreover have "referenceFiles (applyProgressiveDisclosure sd si dir) \<noteq> []"
      using ex by (auto simp: applyProgressiveDisclosure_files)
    ultimately show ?thesis unfolding g by simp
  qed
  from pointers bound show ?thesis by blast
qed

theorem progressive_disclosure_bound_witness:
  "maxSkillLines < length (split_char CHR 0x0A (buildSkillContent
      ((candidate ''Avoid Direct State'' ''Avoid mutating state directly.'' [])
         \<lparr>category := ''anti-pattern'', badExample := CHR ''a'' # replicate 500 CHR 0x0A @ ''b''\<rparr>)
      \<lparr>pr = 7, author = ''ann'', date = ''2024-01-02'', file = ''src/a.js''\<rparr>))
   \<and> length (split_char CHR 0x0A (mainContent (generateSkill_content
      ((candidate ''Avoid Direct State'' ''Avoid mutating state directly.'' [])
         \<lparr>category := ''anti-pattern'', badExample := CHR ''a'' # replicate 500 CHR 0x0A @ ''b''\<rparr>)
      \<lparr>pr = 7, author = ''ann'', date = ''2024-01-02'', file = ''src/a.js''\<rparr> ''dir'')))
     \<le> maxSkillLines
   \<and> map ref_name (referenceFiles (generateSkill_content
      ((candidate ''Avoid Direct State'' ''Avoid mutating state directly.'' [])
         \<lparr>category := ''anti-pattern'', badExample := CHR ''a'' # replicate 500 CHR 0x0A @ ''b''\<rparr>)
      \<lparr>pr = 7, author = ''ann'', date = ''2024-01-02'', file = ''src/a.js''\<rparr> ''dir''))
     = [''EXAMPLES.md'']
   \<and> includes_str (mainContent (generateSkill_content
      ((candidate ''Avoid Direct State'' ''Avoid mutating state directly.'' [])
         \<lparr>category := ''anti-pattern'', badExample := CHR ''a'' # replicate 500 CHR 0x0A @ ''b''\<rparr>)
      \<lparr>pr = 7, author = ''ann'', date = ''2024-01-02'', file = ''src/a.js''\<rparr> ''dir''))
     ''EXAMPLES.md''"
proof -
  let ?sd = "(candidate ''Avoid Direct State'' ''Avoid mutating state directly.'' [])
         \<lparr>category := ''anti-pattern'', badExample := CHR ''a'' # replicate 500 CHR 0x0A @ ''b''\<rparr>"
  let ?si = "\<lparr>pr = 7, author = ''ann'', date = ''2024-01-02'', file = ''src/a.js''\<rparr>"
  let ?g = "generateSkill_content ?sd ?si ''dir''"
  have e: "maxSkillLines < length (split_char CHR 0x0A (buildSkillContent ?sd ?si))"
    by code_simp
  have r: "map ref_name (referenceFiles ?g) = [''EXAMPLES.md'']"
    by code_simp
  have one: "CHR 0x0A \<notin> set (title ?sd) \<and> CHR 0x0A \<notin> set (description ?sd)
        \<and> CHR 0x0A \<notin> set (domain ?sd) \<and> CHR 0x0A \<notin> set (author ?si)
        \<and> CHR 0x0A \<notin> set (date ?si) \<and> CHR 0x0A \<notin> set (file ?si)
        \<and> (\<forall>s \<in> set (sources ?sd). CHR 0x0A \<notin> set (author s))
        \<and> length (sources ?sd) \<le> 471"
    by (simp add: candidate_def)
  from r obtain f where f: "f \<in> set (referenceFiles ?g)" "ref_name f = ''EXAMPLES.md''"
    by (cases "referenceFiles ?g") auto
  note t = progressive_disclosure_bound [OF e, of "''dir''"]
  from t f have "includes_str (mainContent ?g) ''EXAMPLES.md''"
    by metis
  moreover from t one have "length (split_char CHR 0x0A (mainContent ?g)) \<le> maxSkillLines"
    by blast
  ultimately show ?thesis
    using e r by blast
qed

text \<open>
  C2 as stated fails. For a skill whose title holds 500 line feeds and which has no
  example and no anti-pattern or best-practice text, the rendered content has more than
  500 lines, no reference file is produced, and the main document has more than 500
  lines as well.
\<close>

theorem progressive_disclosure_counterexample:
  "maxSkillLines < length (split_char CHR 0x0A (buildSkillContent
      ((candidate (replicate 500 CHR 0x0A) ''Use when x'' [])\<lparr>skillName := ''a''\<rparr>)
      \<lparr>pr = 0, author = [], date = [], file = []\<rparr>))
   \<and> referenceFiles (generateSkill_content
      ((candidate (replicate 500 CHR 0x0A) ''Use when x'' [])\<lparr>skillName := ''a''\<rparr>)
      \<lparr>pr = 0, author = [], date = [], file = []\<rparr> ''dir'') = []
   \<and> maxSkillLines < length (split_char CHR 0x0A (mainContent (generateSkill_content
      ((candidate (replicate 500 CHR 0x0A) ''Use when x'' [])\<lparr>skillName := ''a''\<rparr>)
      \<lparr>pr = 0, author = [], date = [], file = []\<rparr> ''dir'')))"
  by code_simp

end
